theory Spec2Isabelle
  imports Complex_Main "HOL-Library.AList" "HOL-Library.Multiset"
begin

section \<open>Python values\<close>

text \<open>
  A parsed JSON document, as \<^verbatim>\<open>orjson.loads\<close> and \<^verbatim>\<open>json.loads\<close> return it.
  A JSON object is a Python dict: an association list in insertion order, looked up
  with \<^const>\<open>map_of\<close>. A Python float is represented by the rational number it
  denotes; arithmetic on numbers is exact (the rounding of binary64 is not modelled).
  Strings are lists of characters.
\<close>

datatype json =
    JNull
  | JBool bool
  | JInt int
  | JFloat rat
  | JStr string
  | JList "json list"
  | JObj "(string \<times> json) list"

text \<open>The exceptions the modelled code can raise.\<close>

datatype error = TypeError | AttributeError | KeyError | ValueError | JSONDecodeError

text \<open>Truth value testing: \<^verbatim>\<open>if x:\<close>, \<^verbatim>\<open>x or y\<close>, \<^verbatim>\<open>not x\<close>.\<close>

fun truthy :: "json \<Rightarrow> bool" where
  "truthy JNull = False"
| "truthy (JBool b) = b"
| "truthy (JInt n) = (n \<noteq> 0)"
| "truthy (JFloat r) = (r \<noteq> 0)"
| "truthy (JStr s) = (s \<noteq> [])"
| "truthy (JList xs) = (xs \<noteq> [])"
| "truthy (JObj kvs) = (kvs \<noteq> [])"

text \<open>
  Keys of a dict built by the program. Python compares keys by value, so \<^verbatim>\<open>True\<close>,
  \<^verbatim>\<open>1\<close> and \<^verbatim>\<open>1.0\<close> are one key; lists and dicts are unhashable and storing under
  them raises \<^verbatim>\<open>TypeError\<close>.
\<close>

datatype pykey = KNone | KNum rat | KStr string

fun py_key :: "json \<Rightarrow> pykey option" where
  "py_key JNull = Some KNone"
| "py_key (JBool b) = Some (KNum (if b then 1 else 0))"
| "py_key (JInt n) = Some (KNum (of_int n))"
| "py_key (JFloat r) = Some (KNum r)"
| "py_key (JStr s) = Some (KStr s)"
| "py_key (JList xs) = None"
| "py_key (JObj kvs) = None"

type_synonym 'v pydict = "(pykey \<times> 'v) list"

text \<open>\<^verbatim>\<open>d[key] = value\<close>: replaces in place or appends; raises on an unhashable key.\<close>

definition dict_store :: "json pydict \<Rightarrow> json \<Rightarrow> json \<Rightarrow> error + json pydict" where
  "dict_store d key v =
     (case py_key key of None \<Rightarrow> Inl TypeError | Some k \<Rightarrow> Inr (AList.update k v d))"

text \<open>\<^verbatim>\<open>d.update(other)\<close> for a JSON object \<open>other\<close>: its items are stored in turn.\<close>

definition dict_update :: "json pydict \<Rightarrow> (string \<times> json) list \<Rightarrow> json pydict" where
  "dict_update d other = fold (\<lambda>(k, v) acc. AList.update (KStr k) v acc) other d"

text \<open>A loop whose body may raise: the first exception ends it.\<close>

fun fold_err :: "('s \<Rightarrow> 'a \<Rightarrow> error + 's) \<Rightarrow> 's \<Rightarrow> 'a list \<Rightarrow> error + 's" where
  "fold_err f s [] = Inr s"
| "fold_err f s (x # xs) = (case f s x of Inl e \<Rightarrow> Inl e | Inr s' \<Rightarrow> fold_err f s' xs)"

section \<open>Attribute Extractor (\<^verbatim>\<open>UnifiedTelemetryAnalyzer._extract_attributes\<close>)\<close>

text \<open>One entry of a list-typed \<^verbatim>\<open>attributes\<close> field (the body of the inner loop).\<close>

fun attr_entry :: "json pydict \<Rightarrow> json \<Rightarrow> error + json pydict" where
  "attr_entry acc (JObj a) =
     (case (map_of a ''key'', map_of a ''value'') of
        (Some key, Some val) \<Rightarrow>
          (case val of
             JObj v \<Rightarrow>
               (case map_of v ''stringValue'' of
                  Some s \<Rightarrow> dict_store acc key s
                | None \<Rightarrow>
                    (case map_of v ''intValue'' of
                       Some i \<Rightarrow> dict_store acc key i
                     | None \<Rightarrow>
                         (case map_of v ''boolValue'' of
                            Some b \<Rightarrow> dict_store acc key b
                          | None \<Rightarrow> Inr acc)))
           | _ \<Rightarrow> dict_store acc key val)
      | _ \<Rightarrow> Inr acc)"
| "attr_entry acc _ = Inr acc"

text \<open>The first block: the record's own \<^verbatim>\<open>attributes\<close> field.\<close>

definition direct_attributes :: "(string \<times> json) list \<Rightarrow> error + json pydict" where
  "direct_attributes data =
     (case map_of data ''attributes'' of
        Some (JObj attrs) \<Rightarrow> Inr (dict_update [] attrs)
      | Some (JList attrs) \<Rightarrow> fold_err attr_entry [] attrs
      | _ \<Rightarrow> Inr [])"

text \<open>
  The second block: \<^verbatim>\<open>resource = data.get('resource', {})\<close>; a truthy resource that is
  not a dict has no \<^verbatim>\<open>get\<close> and raises \<^verbatim>\<open>AttributeError\<close>.
\<close>

definition resource_attributes :: "(string \<times> json) list \<Rightarrow> json pydict \<Rightarrow> error + json pydict" where
  "resource_attributes data attributes =
     (let resource = (case map_of data ''resource'' of Some r \<Rightarrow> r | None \<Rightarrow> JObj [])
      in if truthy resource then
           (case resource of
              JObj r \<Rightarrow>
                (case map_of r ''attributes'' of
                   Some (JObj res_attrs) \<Rightarrow> Inr (dict_update attributes res_attrs)
                 | _ \<Rightarrow> Inr attributes)
            | _ \<Rightarrow> Inl AttributeError)
         else Inr attributes)"

definition extract_attributes :: "(string \<times> json) list \<Rightarrow> error + json pydict" where
  "extract_attributes data =
     (case direct_attributes data of
        Inl e \<Rightarrow> Inl e
      | Inr attributes \<Rightarrow> resource_attributes data attributes)"

section \<open>Events, turns and flows (the dataclasses)\<close>

text \<open>
  A \<^verbatim>\<open>datetime\<close> is naive (no offset) or aware. Two values of the same kind compare
  by their position on the time line, counted in microseconds; \<^verbatim>\<open><\<close> between a naive and
  an aware one raises \<^verbatim>\<open>TypeError\<close>.
\<close>

datatype datetime = Naive int | Aware int

fun dt_value :: "datetime \<Rightarrow> int" where
  "dt_value (Naive t) = t"
| "dt_value (Aware t) = t"

fun is_aware :: "datetime \<Rightarrow> bool" where
  "is_aware (Naive t) = False"
| "is_aware (Aware t) = True"

text \<open>
  \<^verbatim>\<open>TelemetryEvent\<close>. The fields filled by \<^verbatim>\<open>data.get(...)\<close> hold whatever JSON value
  the record has there (\<^const>\<open>JNull\<close> when the key is absent); \<open>agent_type\<close> is the
  string \<^verbatim>\<open>detect_agent_type\<close> returns.
\<close>

record event =
  timestamp :: datetime
  event_type :: json
  agent_type :: string
  span_id :: json
  trace_id :: json
  parent_span_id :: json
  service_name :: json
  operation_name :: json
  attributes :: "json pydict"
  logs :: json
  raw_data :: "(string \<times> json) list"

text \<open>The dicts built by \<^verbatim>\<open>_extract_tool_call\<close> and \<^verbatim>\<open>_extract_tool_result\<close>.\<close>

record tool_call =
  tc_name :: json
  tc_inputs :: json
  tc_timestamp :: datetime
  tc_log_message :: "json option"

record tool_result =
  tr_result :: json
  tr_success :: json
  tr_timestamp :: datetime
  tr_log_message :: "json option"

text \<open>
  \<^verbatim>\<open>ConversationTurn\<close>. \<^verbatim>\<open>duration_ms\<close> and \<^verbatim>\<open>cost_estimate\<close> are never assigned and stay
  \<^verbatim>\<open>None\<close>; they are left out. \<open>token_usage\<close> is a dict with the keys \<^verbatim>\<open>input\<close>,
  \<^verbatim>\<open>output\<close> and \<^verbatim>\<open>total\<close>.
\<close>

record turn =
  turn_id :: nat
  turn_agent_type :: string
  user_prompt :: "json option"
  assistant_response :: "json option"
  tool_calls :: "tool_call list"
  tool_results :: "tool_result list"
  turn_timestamp :: "datetime option"
  token_usage :: "(string \<times> json) list"
  errors :: "string list"

section \<open>Strings\<close>

text \<open>
  \<^verbatim>\<open>str.lower()\<close> on ASCII letters (the needles searched for are ASCII, and lowering a
  character outside ASCII never yields an ASCII letter in Latin-1), and the substring
  test \<^verbatim>\<open>needle in haystack\<close>.
\<close>

fun lower_char :: "char \<Rightarrow> char" where
  "lower_char (Char b0 b1 b2 b3 b4 b5 b6 b7) =
     (let n = (of_char (Char b0 b1 b2 b3 b4 b5 b6 b7) :: nat)
      in if 65 \<le> n \<and> n \<le> 90 then Char b0 b1 b2 b3 b4 True b6 b7
         else Char b0 b1 b2 b3 b4 b5 b6 b7)"

definition py_lower :: "string \<Rightarrow> string" where
  "py_lower s = map lower_char s"

fun contains :: "string \<Rightarrow> string \<Rightarrow> bool" where
  "contains w [] = (w = [])"
| "contains w (c # cs) = (take (length w) (c # cs) = w \<or> contains w cs)"

section \<open>Turn Segmenter (\<^verbatim>\<open>_process_conversation_turns\<close> and its helpers)\<close>

definition bind_err :: "error + 'a \<Rightarrow> ('a \<Rightarrow> error + 'b) \<Rightarrow> error + 'b" where
  "bind_err m f = (case m of Inl e \<Rightarrow> Inl e | Inr x \<Rightarrow> f x)"

text \<open>
  \<^verbatim>\<open>for log in event.logs\<close>: a list gives its elements, a dict its keys, a string its
  characters; anything else is not iterable.
\<close>

fun py_iter :: "json \<Rightarrow> error + json list" where
  "py_iter (JList xs) = Inr xs"
| "py_iter (JObj kvs) = Inr (map (\<lambda>kv. JStr (fst kv)) kvs)"
| "py_iter (JStr s) = Inr (map (\<lambda>c. JStr [c]) s)"
| "py_iter _ = Inl TypeError"

text \<open>
  \<^verbatim>\<open>log.get('message', '')\<close>: only a dict has \<^verbatim>\<open>get\<close>.
\<close>

fun log_message :: "json \<Rightarrow> error + json" where
  "log_message (JObj d) = Inr (case map_of d ''message'' of Some m \<Rightarrow> m | None \<Rightarrow> JStr [])"
| "log_message _ = Inl AttributeError"

text \<open>\<^verbatim>\<open>w in message.lower()\<close>: only a string has \<^verbatim>\<open>lower\<close>.\<close>

fun message_mentions :: "string \<Rightarrow> json \<Rightarrow> error + bool" where
  "message_mentions w (JStr s) = Inr (contains w (py_lower s))"
| "message_mentions w _ = Inl AttributeError"

definition log_mentions :: "string \<Rightarrow> json \<Rightarrow> error + bool" where
  "log_mentions w l = bind_err (log_message l) (message_mentions w)"

text \<open>\<^verbatim>\<open>any(w in log.get('message', '').lower() for log in logs)\<close>, stopping at the first hit.\<close>

fun any_log_mentions :: "string \<Rightarrow> json list \<Rightarrow> error + bool" where
  "any_log_mentions w [] = Inr False"
| "any_log_mentions w (l # ls) =
     bind_err (log_mentions w l) (\<lambda>b. if b then Inr True else any_log_mentions w ls)"

definition logs_mention :: "string \<Rightarrow> event \<Rightarrow> error + bool" where
  "logs_mention w e = bind_err (py_iter (logs e)) (any_log_mentions w)"

definition has_attr :: "string \<Rightarrow> event \<Rightarrow> bool" where
  "has_attr k e = (map_of (attributes e) (KStr k) \<noteq> None)"

definition is_user_prompt :: "event \<Rightarrow> error + bool" where
  "is_user_prompt e =
     (if has_attr ''user.prompt'' e \<or> has_attr ''prompt'' e
         \<or> operation_name e = JStr ''user_prompt''
      then Inr True else logs_mention ''prompt'' e)"

definition is_assistant_response :: "event \<Rightarrow> error + bool" where
  "is_assistant_response e =
     (if has_attr ''assistant.response'' e \<or> has_attr ''response'' e
         \<or> operation_name e = JStr ''assistant_response''
      then Inr True else logs_mention ''response'' e)"

definition is_tool_call :: "event \<Rightarrow> error + bool" where
  "is_tool_call e =
     (if has_attr ''tool.name'' e \<or> operation_name e = JStr ''tool_call''
      then Inr True else logs_mention ''tool'' e)"

definition is_tool_result :: "event \<Rightarrow> error + bool" where
  "is_tool_result e =
     (if has_attr ''tool.result'' e \<or> operation_name e = JStr ''tool_result''
      then Inr True else logs_mention ''result'' e)"

text \<open>
  The loop \<^verbatim>\<open>for log in logs: ... if w in message.lower(): return message\<close> of the two
  text extractors.
\<close>

fun first_log_mentioning :: "string \<Rightarrow> json list \<Rightarrow> error + json option" where
  "first_log_mentioning w [] = Inr None"
| "first_log_mentioning w (l # ls) =
     bind_err (log_message l) (\<lambda>m.
       bind_err (message_mentions w m) (\<lambda>b.
         if b then Inr (Some m) else first_log_mentioning w ls))"

definition extract_user_prompt :: "event \<Rightarrow> error + json option" where
  "extract_user_prompt e =
     (case map_of (attributes e) (KStr ''user.prompt'') of
        Some v \<Rightarrow> Inr (Some v)
      | None \<Rightarrow>
          (case map_of (attributes e) (KStr ''prompt'') of
             Some v \<Rightarrow> Inr (Some v)
           | None \<Rightarrow> bind_err (py_iter (logs e)) (first_log_mentioning ''prompt'')))"

definition extract_assistant_response :: "event \<Rightarrow> error + json option" where
  "extract_assistant_response e =
     (case map_of (attributes e) (KStr ''assistant.response'') of
        Some v \<Rightarrow> Inr (Some v)
      | None \<Rightarrow>
          (case map_of (attributes e) (KStr ''response'') of
             Some v \<Rightarrow> Inr (Some v)
           | None \<Rightarrow> bind_err (py_iter (logs e)) (first_log_mentioning ''response'')))"

text \<open>
  The loop \<^verbatim>\<open>for log in logs: ... if w in message.lower(): d['log_message'] = message\<close> of
  the two tool extractors: the last matching message stays.
\<close>

fun last_log_mentioning :: "string \<Rightarrow> json option \<Rightarrow> json list \<Rightarrow> error + json option" where
  "last_log_mentioning w acc [] = Inr acc"
| "last_log_mentioning w acc (l # ls) =
     bind_err (log_message l) (\<lambda>m.
       bind_err (message_mentions w m) (\<lambda>b.
         last_log_mentioning w (if b then Some m else acc) ls))"

definition attr_get :: "string \<Rightarrow> json \<Rightarrow> event \<Rightarrow> json" where
  "attr_get k dflt e = (case map_of (attributes e) (KStr k) of Some v \<Rightarrow> v | None \<Rightarrow> dflt)"

definition extract_tool_call :: "event \<Rightarrow> error + tool_call" where
  "extract_tool_call e =
     bind_err (py_iter (logs e)) (\<lambda>ls.
       bind_err (last_log_mentioning ''tool'' None ls) (\<lambda>m.
         Inr \<lparr>tc_name = attr_get ''tool.name'' (JStr ''unknown'') e,
              tc_inputs = attr_get ''tool.inputs'' (JObj []) e,
              tc_timestamp = timestamp e,
              tc_log_message = m\<rparr>))"

definition extract_tool_result :: "event \<Rightarrow> error + tool_result" where
  "extract_tool_result e =
     bind_err (py_iter (logs e)) (\<lambda>ls.
       bind_err (last_log_mentioning ''result'' None ls) (\<lambda>m.
         Inr \<lparr>tr_result = attr_get ''tool.result'' (JStr ''unknown'') e,
              tr_success = attr_get ''tool.success'' (JBool True) e,
              tr_timestamp = timestamp e,
              tr_log_message = m\<rparr>))"

text \<open>\<^verbatim>\<open>_update_token_usage\<close>: three independent assignments.\<close>

definition token_store :: "string \<Rightarrow> string \<Rightarrow> event \<Rightarrow> (string \<times> json) list \<Rightarrow> (string \<times> json) list" where
  "token_store a k e tu =
     (case map_of (attributes e) (KStr a) of Some v \<Rightarrow> AList.update k v tu | None \<Rightarrow> tu)"

definition update_token_usage :: "turn \<Rightarrow> event \<Rightarrow> turn" where
  "update_token_usage t e =
     t\<lparr>token_usage :=
         token_store ''tokens.total'' ''total'' e
           (token_store ''tokens.output'' ''output'' e
             (token_store ''tokens.input'' ''input'' e (token_usage t)))\<rparr>"

text \<open>
  The state of the loop: \<^verbatim>\<open>current_turn\<close>, \<^verbatim>\<open>flow.turns\<close> and \<^verbatim>\<open>turn_counter\<close>.
  A \<^verbatim>\<open>ConversationTurn\<close> object is always truthy, so \<^verbatim>\<open>if current_turn\<close> tests for
  \<^verbatim>\<open>None\<close>; the dicts the tool extractors return are never empty, so \<^verbatim>\<open>if tool_call\<close>
  and \<^verbatim>\<open>if tool_result\<close> always hold.
\<close>

type_synonym seg_state = "turn option \<times> turn list \<times> nat"

definition new_turn :: "string \<Rightarrow> nat \<Rightarrow> json option \<Rightarrow> event \<Rightarrow> turn" where
  "new_turn agent n p e =
     \<lparr>turn_id = n, turn_agent_type = agent, user_prompt = p, assistant_response = None,
      tool_calls = [], tool_results = [], turn_timestamp = Some (timestamp e),
      token_usage = [], errors = []\<rparr>"

text \<open>The \<^verbatim>\<open>if / elif\<close> chain of the loop body.\<close>

definition classify_step :: "string \<Rightarrow> seg_state \<Rightarrow> event \<Rightarrow> error + seg_state" where
  "classify_step agent st e =
     (case st of (cur, past, n) \<Rightarrow>
        bind_err (is_user_prompt e) (\<lambda>p.
          if p then
            bind_err (extract_user_prompt e) (\<lambda>txt.
              Inr (Some (new_turn agent (n + 1) txt e),
                   (case cur of Some t \<Rightarrow> past @ [t] | None \<Rightarrow> past), n + 1))
          else
            bind_err (is_assistant_response e) (\<lambda>r.
              if r \<and> cur \<noteq> None then
                bind_err (extract_assistant_response e) (\<lambda>txt.
                  Inr (map_option (\<lambda>t. t\<lparr>assistant_response := txt\<rparr>) cur, past, n))
              else
                bind_err (is_tool_call e) (\<lambda>c.
                  if c \<and> cur \<noteq> None then
                    bind_err (extract_tool_call e) (\<lambda>tc.
                      Inr (map_option (\<lambda>t. t\<lparr>tool_calls := tool_calls t @ [tc]\<rparr>) cur, past, n))
                  else
                    bind_err (is_tool_result e) (\<lambda>s.
                      if s \<and> cur \<noteq> None then
                        bind_err (extract_tool_result e) (\<lambda>tr.
                          Inr (map_option (\<lambda>t. t\<lparr>tool_results := tool_results t @ [tr]\<rparr>) cur,
                               past, n))
                      else Inr (cur, past, n))))))"

text \<open>One iteration: the chain, then the token update of the current turn.\<close>

definition turn_step :: "string \<Rightarrow> seg_state \<Rightarrow> event \<Rightarrow> error + seg_state" where
  "turn_step agent st e =
     bind_err (classify_step agent st e) (\<lambda>st'.
       case st' of (cur, past, n) \<Rightarrow>
         Inr (map_option (\<lambda>t. update_token_usage t e) cur, past, n))"

text \<open>After the loop the open turn is appended.\<close>

definition finish_turns :: "seg_state \<Rightarrow> turn list" where
  "finish_turns st = (case st of (cur, past, n) \<Rightarrow> (case cur of Some t \<Rightarrow> past @ [t] | None \<Rightarrow> past))"

definition process_conversation_turns :: "string \<Rightarrow> event list \<Rightarrow> error + turn list" where
  "process_conversation_turns agent events =
     bind_err (fold_err (turn_step agent) (None, [], 0) events) (\<lambda>st. Inr (finish_turns st))"

section \<open>Statistics Aggregator (\<^verbatim>\<open>_calculate_flow_statistics\<close>)\<close>

text \<open>
  \<^verbatim>\<open>ConversationFlow\<close>. \<open>session_id\<close> is the key of the session dict the flow was built
  from. \<open>total_tokens\<close> and \<open>tools_used\<close> are the two \<^verbatim>\<open>defaultdict(int)\<close>; the cost is a
  Python float, held here as the exact rational.
\<close>

record flow =
  session_id :: pykey
  flow_agent_type :: string
  user_name :: json
  user_email :: json
  start_time :: datetime
  end_time :: "datetime option"
  turns :: "turn list"
  total_tokens :: "(string \<times> rat) list"
  total_cost :: rat
  tools_used :: "nat pydict"
  error_count :: nat

text \<open>
  The values \<^verbatim>\<open>+\<close> and \<^verbatim>\<open>*\<close> accept next to a number: \<^verbatim>\<open>int\<close>, \<^verbatim>\<open>float\<close> and \<^verbatim>\<open>bool\<close>;
  any other operand raises \<^verbatim>\<open>TypeError\<close>.
\<close>

fun py_num :: "json \<Rightarrow> rat option" where
  "py_num (JInt n) = Some (of_int n)"
| "py_num (JFloat r) = Some r"
| "py_num (JBool b) = Some (if b then 1 else 0)"
| "py_num _ = None"

definition dd_get :: "('k \<times> 'v) list \<Rightarrow> 'k \<Rightarrow> 'v \<Rightarrow> 'v" where
  "dd_get d k dflt = (case map_of d k of Some v \<Rightarrow> v | None \<Rightarrow> dflt)"

text \<open>\<^verbatim>\<open>flow.total_tokens[key] += value\<close>\<close>

definition add_token :: "(string \<times> rat) list \<Rightarrow> string \<times> json \<Rightarrow> error + (string \<times> rat) list" where
  "add_token tt kv =
     (case py_num (snd kv) of
        None \<Rightarrow> Inl TypeError
      | Some x \<Rightarrow> Inr (AList.update (fst kv) (dd_get tt (fst kv) 0 + x) tt))"

text \<open>\<^verbatim>\<open>flow.tools_used[tool_call.get('name', 'unknown')] += 1\<close>\<close>

definition count_tool :: "nat pydict \<Rightarrow> tool_call \<Rightarrow> error + nat pydict" where
  "count_tool tu tc =
     (case py_key (tc_name tc) of
        None \<Rightarrow> Inl TypeError
      | Some k \<Rightarrow> Inr (AList.update k (dd_get tu k 0 + 1) tu))"

text \<open>
  \<^verbatim>\<open>if turn.token_usage.get(k): flow.total_cost += turn.token_usage[k] * rate\<close>
\<close>

definition add_cost :: "string \<Rightarrow> rat \<Rightarrow> turn \<Rightarrow> rat \<Rightarrow> error + rat" where
  "add_cost k rate t cost =
     (case map_of (token_usage t) k of
        None \<Rightarrow> Inr cost
      | Some v \<Rightarrow>
          if truthy v then
            (case py_num v of None \<Rightarrow> Inl TypeError | Some x \<Rightarrow> Inr (cost + x * rate))
          else Inr cost)"

text \<open>The body of \<^verbatim>\<open>for turn in flow.turns\<close>.\<close>

definition turn_statistics :: "flow \<Rightarrow> turn \<Rightarrow> error + flow" where
  "turn_statistics f t =
     bind_err (fold_err add_token (total_tokens f) (token_usage t)) (\<lambda>tt.
       bind_err (fold_err count_tool (tools_used f) (tool_calls t)) (\<lambda>tu.
         bind_err (add_cost ''input'' (1 / 100000) t (total_cost f)) (\<lambda>c1.
           bind_err (add_cost ''output'' (3 / 100000) t c1) (\<lambda>c2.
             Inr (f\<lparr>total_tokens := tt, tools_used := tu,
                    error_count := error_count f + length (errors t),
                    total_cost := c2\<rparr>)))))"

definition calculate_flow_statistics :: "flow \<Rightarrow> error + flow" where
  "calculate_flow_statistics f =
     fold_err turn_statistics
       (f\<lparr>total_tokens := [], total_cost := 0, tools_used := [], error_count := 0\<rparr>)
       (turns f)"

section \<open>Session Grouper (\<^verbatim>\<open>analyze_conversation_flow\<close>)\<close>

text \<open>\<^verbatim>\<open>session_key = event.trace_id or event.service_name\<close>\<close>

definition session_key :: "event \<Rightarrow> json" where
  "session_key e = (if truthy (trace_id e) then trace_id e else service_name e)"

text \<open>
  \<^verbatim>\<open>agent_sessions[event.agent_type][session_key].append(event)\<close> on the nested
  \<^verbatim>\<open>defaultdict\<close>: both levels keep insertion order.
\<close>

type_synonym sessions = "(string \<times> (pykey \<times> event list) list) list"

definition group_event :: "sessions \<Rightarrow> event \<Rightarrow> error + sessions" where
  "group_event g e =
     (case py_key (session_key e) of
        None \<Rightarrow> Inl TypeError
      | Some k \<Rightarrow>
          Inr (AList.map_default (agent_type e) [(k, [e])]
                 (\<lambda>s. AList.map_default k [e] (\<lambda>es. es @ [e]) s) g))"

definition group_events :: "event list \<Rightarrow> error + sessions" where
  "group_events events = fold_err group_event [] events"

text \<open>
  \<^verbatim>\<open>session_events.sort(key=lambda x: x.timestamp)\<close>. Python's sort is stable and
  ascending; it compares the keys with \<^verbatim>\<open><\<close>, which raises as soon as a naive and an
  aware timestamp meet, and with two or more events of both kinds they do meet.
\<close>

fun same_kind :: "event list \<Rightarrow> bool" where
  "same_kind [] = True"
| "same_kind (e # es) = list_all (\<lambda>x. is_aware (timestamp x) = is_aware (timestamp e)) es"

definition sort_by_timestamp :: "event list \<Rightarrow> error + event list" where
  "sort_by_timestamp es =
     (if same_kind es then Inr (sort_key (\<lambda>e. dt_value (timestamp e)) es) else Inl TypeError)"

fun extract_user_name :: "event list \<Rightarrow> json" where
  "extract_user_name [] = JStr ''Unknown User''"
| "extract_user_name (e # es) =
     (case map_of (attributes e) (KStr ''user.name'') of
        Some v \<Rightarrow> v
      | None \<Rightarrow>
          (case map_of (attributes e) (KStr ''user_name'') of
             Some v \<Rightarrow> v
           | None \<Rightarrow> extract_user_name es))"

fun extract_user_email :: "event list \<Rightarrow> json" where
  "extract_user_email [] = JStr ''unknown@example.com''"
| "extract_user_email (e # es) =
     (case map_of (attributes e) (KStr ''user.email'') of
        Some v \<Rightarrow> v
      | None \<Rightarrow>
          (case map_of (attributes e) (KStr ''user_email'') of
             Some v \<Rightarrow> v
           | None \<Rightarrow> extract_user_email es))"

text \<open>
  The body of the inner loop for one session: sort, build the flow, segment, aggregate.
  An empty session is skipped (\<^verbatim>\<open>continue\<close>).
\<close>

definition session_flow :: "string \<Rightarrow> pykey \<times> event list \<Rightarrow> error + flow list" where
  "session_flow agent kv =
     bind_err (sort_by_timestamp (snd kv)) (\<lambda>session_events.
       case session_events of
         [] \<Rightarrow> Inr []
       | first # rest \<Rightarrow>
           bind_err (process_conversation_turns agent session_events) (\<lambda>ts.
             bind_err (calculate_flow_statistics
                 \<lparr>session_id = fst kv, flow_agent_type = agent,
                  user_name = extract_user_name session_events,
                  user_email = extract_user_email session_events,
                  start_time = timestamp first,
                  end_time = Some (timestamp (last session_events)),
                  turns = ts, total_tokens = [], total_cost = 0, tools_used = [],
                  error_count = 0\<rparr>) (\<lambda>f. Inr [f])))"

text \<open>The two nested loops: the flows are appended in the order of the dicts.\<close>

fun flows_of_sessions :: "string \<Rightarrow> (pykey \<times> event list) list \<Rightarrow> error + flow list" where
  "flows_of_sessions agent [] = Inr []"
| "flows_of_sessions agent (kv # kvs) =
     bind_err (session_flow agent kv) (\<lambda>fs.
       bind_err (flows_of_sessions agent kvs) (\<lambda>gs. Inr (fs @ gs)))"

fun flows_of_agents :: "sessions \<Rightarrow> error + flow list" where
  "flows_of_agents [] = Inr []"
| "flows_of_agents (a # as) =
     bind_err (flows_of_sessions (fst a) (snd a)) (\<lambda>fs.
       bind_err (flows_of_agents as) (\<lambda>gs. Inr (fs @ gs)))"

definition analyze_conversation_flow :: "event list \<Rightarrow> error + flow list" where
  "analyze_conversation_flow events = bind_err (group_events events) flows_of_agents"

section \<open>Timestamp Normalizer\<close>

text \<open>
  The string parsers of the Python library are parameters: \<^verbatim>\<open>datetime.fromisoformat\<close>,
  \<^verbatim>\<open>datetime.strptime\<close> with a format (the microsecond count of the naive result), and the
  conversions \<^verbatim>\<open>int(s)\<close> and \<^verbatim>\<open>float(s)\<close> of a string. \<open>None\<close> stands for the exception
  the parser raises.
\<close>

record pylib =
  fromisoformat :: "string \<Rightarrow> datetime option"
  strptime :: "string \<Rightarrow> string \<Rightarrow> int option"
  int_of_str :: "string \<Rightarrow> int option"
  float_of_str :: "string \<Rightarrow> rat option"

text \<open>\<^verbatim>\<open>s.replace('Z', '+00:00')\<close>: every \<^verbatim>\<open>Z\<close> is replaced.\<close>

definition replace_Z :: "string \<Rightarrow> string" where
  "replace_Z s = concat (map (\<lambda>c. if c = CHR ''Z'' then ''+00:00'' else [c]) s)"

text \<open>
  \<^verbatim>\<open>datetime.fromtimestamp(x, tz=timezone.utc)\<close>: \<open>x\<close> seconds after the epoch, rounded
  half-even to microseconds; outside the years 1 to 9999 it raises (\<^verbatim>\<open>ValueError\<close> or
  \<^verbatim>\<open>OverflowError\<close>, one error here).
\<close>

definition round_half_even :: "rat \<Rightarrow> int" where
  "round_half_even x =
     (let f = \<lfloor>x\<rfloor>; d = x - of_int f
      in if d < 1 / 2 then f else if 1 / 2 < d then f + 1 else if even f then f else f + 1)"

definition fromtimestamp_utc :: "rat \<Rightarrow> error + datetime" where
  "fromtimestamp_utc x =
     (let us = round_half_even (x * 1000000)
      in if - 62135596800 * 1000000 \<le> us \<and> us < 253402300800 * 1000000
         then Inr (Aware us) else Inl ValueError)"

text \<open>
  \<^verbatim>\<open>UnifiedTelemetryAnalyzer._extract_timestamp\<close>. \<open>now\<close> is what
  \<^verbatim>\<open>datetime.now(timezone.utc)\<close> returns at the call. A numeric value (\<^verbatim>\<open>bool\<close> is an
  \<^verbatim>\<open>int\<close>) is divided by \<^verbatim>\<open>1e9\<close> whatever its magnitude.
\<close>

definition dict_get :: "(string \<times> json) list \<Rightarrow> string \<Rightarrow> json \<Rightarrow> json" where
  "dict_get d k dflt = (case map_of d k of Some v \<Rightarrow> v | None \<Rightarrow> dflt)"

definition parse_timestamp_string :: "pylib \<Rightarrow> datetime \<Rightarrow> string \<Rightarrow> datetime" where
  "parse_timestamp_string lib now s =
     (case fromisoformat lib (replace_Z s) of
        Some d \<Rightarrow> d
      | None \<Rightarrow>
          (case strptime lib s ''%Y-%m-%dT%H:%M:%S.%fZ'' of
             Some t \<Rightarrow> Aware t
           | None \<Rightarrow>
               (case strptime lib s ''%Y-%m-%dT%H:%M:%SZ'' of
                  Some t \<Rightarrow> Aware t
                | None \<Rightarrow> now)))"

definition extract_timestamp :: "pylib \<Rightarrow> datetime \<Rightarrow> (string \<times> json) list \<Rightarrow> error + datetime" where
  "extract_timestamp lib now data =
     (case dict_get data ''timestamp'' (dict_get data ''timeUnixNano'' JNull) of
        JStr s \<Rightarrow> Inr (parse_timestamp_string lib now s)
      | JInt n \<Rightarrow> fromtimestamp_utc (of_int n / 1000000000)
      | JFloat r \<Rightarrow> fromtimestamp_utc (r / 1000000000)
      | JBool b \<Rightarrow> fromtimestamp_utc ((if b then 1 else 0) / 1000000000)
      | _ \<Rightarrow> Inr now)"




section \<open>Event Normalizer (\<^verbatim>\<open>_parse_event\<close>, \<^verbatim>\<open>_load_file\<close>)\<close>

definition determine_event_type :: "(string \<times> json) list \<Rightarrow> string \<Rightarrow> json" where
  "determine_event_type data file_type =
     (if contains ''traces'' file_type then JStr ''trace''
      else if contains ''logs'' file_type then JStr ''log''
      else if contains ''metrics'' file_type then JStr ''metric''
      else dict_get data ''type'' (JStr ''unknown''))"

text \<open>\<^verbatim>\<open>k in x\<close> and \<^verbatim>\<open>x[k]\<close> for a string \<open>k\<close> and any value \<open>x\<close>.\<close>

fun py_in :: "string \<Rightarrow> json \<Rightarrow> error + bool" where
  "py_in k (JObj d) = Inr (map_of d k \<noteq> None)"
| "py_in k (JList xs) = Inr (List.member xs (JStr k))"
| "py_in k (JStr s) = Inr (contains k s)"
| "py_in k _ = Inl TypeError"

fun py_subscript :: "json \<Rightarrow> string \<Rightarrow> error + json" where
  "py_subscript (JObj d) k = (case map_of d k of Some v \<Rightarrow> Inr v | None \<Rightarrow> Inl KeyError)"
| "py_subscript _ k = Inl TypeError"

definition default_service_name :: "string \<Rightarrow> json" where
  "default_service_name agent =
     (if agent = ''claude-code'' then JStr ''claude-code''
      else if agent = ''gemini-cli'' then JStr ''gemini-cli''
      else JStr ''unknown'')"

definition extract_service_name :: "(string \<times> json) list \<Rightarrow> string \<Rightarrow> error + json" where
  "extract_service_name data agent =
     (if truthy (dict_get data ''serviceName'' JNull) then Inr (dict_get data ''serviceName'' JNull)
      else
        (let resource = dict_get data ''resource'' (JObj [])
         in if truthy resource then
              (case resource of
                 JObj r \<Rightarrow>
                   (let attrs = dict_get r ''attributes'' (JObj [])
                    in bind_err (py_in ''service.name'' attrs) (\<lambda>b.
                         if b then py_subscript attrs ''service.name''
                         else Inr (default_service_name agent)))
               | _ \<Rightarrow> Inl AttributeError)
            else Inr (default_service_name agent)))"

text \<open>
  The body of the \<^verbatim>\<open>try\<close> in \<^verbatim>\<open>_parse_event\<close>. The first \<^verbatim>\<open>data.get\<close> raises
  \<^verbatim>\<open>AttributeError\<close> unless the parsed line is an object.
\<close>

definition parse_event_body :: "pylib \<Rightarrow> datetime \<Rightarrow> json \<Rightarrow> string \<Rightarrow> string \<Rightarrow> error + event" where
  "parse_event_body lib now j agent file_type =
     (case j of
        JObj data \<Rightarrow>
          bind_err (extract_timestamp lib now data) (\<lambda>ts.
            bind_err (extract_service_name data agent) (\<lambda>sn.
              bind_err (extract_attributes data) (\<lambda>attrs.
                Inr \<lparr>timestamp = ts,
                     event_type = determine_event_type data file_type,
                     agent_type = agent,
                     span_id = dict_get data ''spanId'' JNull,
                     trace_id = dict_get data ''traceId'' JNull,
                     parent_span_id = dict_get data ''parentSpanId'' JNull,
                     service_name = sn,
                     operation_name =
                       dict_get data ''operationName'' (dict_get data ''name'' JNull),
                     attributes = attrs,
                     logs = dict_get data ''logs'' (JList []),
                     raw_data = data\<rparr>)))
      | _ \<Rightarrow> Inl AttributeError)"

text \<open>The messages printed: one constructor per \<^verbatim>\<open>print\<close> of a warning.\<close>

datatype warning = LineWarning nat | EventWarning

text \<open>\<^verbatim>\<open>_parse_event\<close>: any exception of the body is caught, a warning printed, \<^verbatim>\<open>None\<close> returned.\<close>

definition parse_event :: "pylib \<Rightarrow> datetime \<Rightarrow> json \<Rightarrow> string \<Rightarrow> string \<Rightarrow> event option \<times> warning list" where
  "parse_event lib now j agent file_type =
     (case parse_event_body lib now j agent file_type of
        Inr e \<Rightarrow> (Some e, [])
      | Inl err \<Rightarrow> (None, [EventWarning]))"

text \<open>
  A line of a JSONL file, by what the JSON parser makes of it: empty after \<^verbatim>\<open>strip()\<close>,
  rejected with the parser's decode error, or parsed to a value.
\<close>

datatype line = Blank | Malformed | Parsed json

text \<open>
  The body of the loop of \<^verbatim>\<open>_load_file\<close> for line number \<open>n\<close>: the events and the
  warnings it adds. A \<^verbatim>\<open>TelemetryEvent\<close> is always truthy, so \<^verbatim>\<open>if event\<close> tests for
  \<^verbatim>\<open>None\<close>.
\<close>

definition load_line :: "pylib \<Rightarrow> datetime \<Rightarrow> string \<Rightarrow> string \<Rightarrow> nat \<Rightarrow> line \<Rightarrow> event list \<times> warning list" where
  "load_line lib now agent file_name n l =
     (case l of
        Blank \<Rightarrow> ([], [])
      | Malformed \<Rightarrow> ([], [LineWarning n])
      | Parsed j \<Rightarrow>
          (case parse_event lib now j agent file_name of
             (Some e, ws) \<Rightarrow> ([e], ws)
           | (None, ws) \<Rightarrow> ([], ws)))"

text \<open>
  \<^verbatim>\<open>_load_file\<close> on a readable file, from line number \<open>n\<close> on: the events appended to
  \<^verbatim>\<open>self.events\<close> and the warnings printed, in order. \<open>clock n\<close> is the wall-clock time
  while line \<open>n\<close> is processed.
\<close>

fun load_lines :: "pylib \<Rightarrow> (nat \<Rightarrow> datetime) \<Rightarrow> string \<Rightarrow> string \<Rightarrow> nat \<Rightarrow> line list \<Rightarrow> event list \<times> warning list" where
  "load_lines lib clock agent file_name n [] = ([], [])"
| "load_lines lib clock agent file_name n (l # ls) =
     (let (es, ws) = load_line lib (clock n) agent file_name n l;
          (es', ws') = load_lines lib clock agent file_name (Suc n) ls
      in (es @ es', ws @ ws'))"

definition load_file :: "pylib \<Rightarrow> (nat \<Rightarrow> datetime) \<Rightarrow> string \<Rightarrow> string \<Rightarrow> line list \<Rightarrow> event list \<times> warning list" where
  "load_file lib clock agent file_name ls = load_lines lib clock agent file_name 1 ls"

section \<open>\<^verbatim>\<open>TelemetryAnalyzer.parse_jsonl\<close> (claude-telemetry-analyzer)\<close>



section \<open>\<^verbatim>\<open>parse_log_record\<close> and \<^verbatim>\<open>parse_jsonl\<close> (analyzer.py)\<close>

text \<open>The event dict \<^verbatim>\<open>parse_log_record\<close> returns.\<close>

record log_event =
  le_timestamp :: json
  le_event_name :: json
  le_attributes :: "json pydict"

text \<open>\<^verbatim>\<open>int(v)\<close> and \<^verbatim>\<open>float(v)\<close>.\<close>

definition py_int :: "pylib \<Rightarrow> json \<Rightarrow> error + json" where
  "py_int lib v =
     (case v of
        JInt n \<Rightarrow> Inr (JInt n)
      | JBool b \<Rightarrow> Inr (JInt (if b then 1 else 0))
      | JFloat r \<Rightarrow> Inr (JInt (if 0 \<le> r then \<lfloor>r\<rfloor> else \<lceil>r\<rceil>))
      | JStr s \<Rightarrow> (case int_of_str lib s of Some n \<Rightarrow> Inr (JInt n) | None \<Rightarrow> Inl ValueError)
      | _ \<Rightarrow> Inl TypeError)"

definition py_float :: "pylib \<Rightarrow> json \<Rightarrow> error + json" where
  "py_float lib v =
     (case v of
        JInt n \<Rightarrow> Inr (JFloat (of_int n))
      | JBool b \<Rightarrow> Inr (JFloat (if b then 1 else 0))
      | JFloat r \<Rightarrow> Inr (JFloat r)
      | JStr s \<Rightarrow> (case float_of_str lib s of Some r \<Rightarrow> Inr (JFloat r) | None \<Rightarrow> Inl ValueError)
      | _ \<Rightarrow> Inl TypeError)"

text \<open>\<^verbatim>\<open>x.get(k, default)\<close> on any value: only a dict has \<^verbatim>\<open>get\<close>.\<close>

fun py_get :: "json \<Rightarrow> string \<Rightarrow> json \<Rightarrow> error + json" where
  "py_get (JObj d) k dflt = Inr (dict_get d k dflt)"
| "py_get _ k dflt = Inl AttributeError"

text \<open>The body of \<^verbatim>\<open>for attr in log_record['attributes']\<close>.\<close>

definition log_attr_entry :: "pylib \<Rightarrow> json pydict \<Rightarrow> json \<Rightarrow> error + json pydict" where
  "log_attr_entry lib acc attr =
     bind_err (py_subscript attr ''key'') (\<lambda>key.
       bind_err (py_subscript attr ''value'') (\<lambda>val.
         case val of
           JObj v \<Rightarrow>
             (case map_of v ''stringValue'' of
                Some s \<Rightarrow> dict_store acc key s
              | None \<Rightarrow>
                  (case map_of v ''intValue'' of
                     Some i \<Rightarrow> bind_err (py_int lib i) (dict_store acc key)
                   | None \<Rightarrow>
                       (case map_of v ''doubleValue'' of
                          Some d \<Rightarrow> bind_err (py_float lib d) (dict_store acc key)
                        | None \<Rightarrow> Inr acc)))
         | _ \<Rightarrow> dict_store acc key val))"

definition parse_log_record :: "pylib \<Rightarrow> json \<Rightarrow> error + log_event option" where
  "parse_log_record lib log_record =
     bind_err (py_get log_record ''attributes'' JNull) (\<lambda>attrs.
       if \<not> truthy attrs then Inr None
       else
         bind_err (py_iter attrs) (\<lambda>entries.
           bind_err (fold_err (log_attr_entry lib) [] entries) (\<lambda>attributes.
             bind_err (py_get log_record ''body'' (JObj [])) (\<lambda>body.
               bind_err (py_get body ''stringValue'' (JStr [])) (\<lambda>name.
                 bind_err (py_get log_record ''observedTimeUnixNano'' JNull) (\<lambda>observed.
                   bind_err (py_get log_record ''timeUnixNano'' observed) (\<lambda>ts.
                     Inr (Some
                       \<lparr>le_timestamp = ts,
                        le_event_name =
                          (if truthy name then name
                           else (case map_of attributes (KStr ''event.name'') of
                                   Some v \<Rightarrow> v
                                 | None \<Rightarrow> name)),
                        le_attributes = attributes\<rparr>))))))))"

text \<open>What \<^verbatim>\<open>parse_jsonl\<close> collects: \<^verbatim>\<open>None\<close>, an event dict, or a line taken as it is.\<close>

datatype collected = NoEvent | LogEvent log_event | DirectEvent json

fun collected_truthy :: "collected \<Rightarrow> bool" where
  "collected_truthy NoEvent = False"
| "collected_truthy (LogEvent e) = True"
| "collected_truthy (DirectEvent j) = truthy j"

definition collect_record :: "pylib \<Rightarrow> collected list \<Rightarrow> json \<Rightarrow> error + collected list" where
  "collect_record lib events log_record =
     bind_err (parse_log_record lib log_record) (\<lambda>r.
       Inr (events @ [case r of None \<Rightarrow> NoEvent | Some e \<Rightarrow> LogEvent e]))"

definition collect_scope :: "pylib \<Rightarrow> collected list \<Rightarrow> json \<Rightarrow> error + collected list" where
  "collect_scope lib events scope_log =
     bind_err (py_get scope_log ''logRecords'' (JList [])) (\<lambda>rs.
       bind_err (py_iter rs) (fold_err (collect_record lib) events))"

definition collect_resource :: "pylib \<Rightarrow> collected list \<Rightarrow> json \<Rightarrow> error + collected list" where
  "collect_resource lib events resource_log =
     bind_err (py_get resource_log ''scopeLogs'' (JList [])) (\<lambda>ss.
       bind_err (py_iter ss) (fold_err (collect_scope lib) events))"

text \<open>
  The body of the loop of \<^verbatim>\<open>parse_jsonl\<close>; the state is the list \<^verbatim>\<open>events\<close> and the number
  of messages printed. Only the decode error is caught: any other exception ends the
  function.
\<close>

definition collect_line :: "pylib \<Rightarrow> collected list \<times> nat \<Rightarrow> line \<Rightarrow> error + collected list \<times> nat" where
  "collect_line lib st l =
     (case l of
        Blank \<Rightarrow> Inr st
      | Malformed \<Rightarrow> Inr (fst st, Suc (snd st))
      | Parsed data \<Rightarrow>
          bind_err (py_in ''resourceLogs'' data) (\<lambda>b.
            if b then
              bind_err (py_subscript data ''resourceLogs'') (\<lambda>rls.
                bind_err (py_iter rls) (\<lambda>rs.
                  bind_err (fold_err (collect_resource lib) (fst st) rs) (\<lambda>events.
                    Inr (events, snd st))))
            else Inr (fst st @ [DirectEvent data], snd st)))"

definition parse_jsonl :: "pylib \<Rightarrow> line list \<Rightarrow> error + collected list \<times> nat" where
  "parse_jsonl lib ls =
     bind_err (fold_err (collect_line lib) ([], 0) ls) (\<lambda>st.
       Inr (filter collected_truthy (fst st), snd st))"

text \<open>A library whose string parsers reject every string, for examples without strings to parse.\<close>

definition example_lib :: pylib where
  "example_lib =
     \<lparr>fromisoformat = (\<lambda>s. None), strptime = (\<lambda>s fmt. None), int_of_str = (\<lambda>s. None),
      float_of_str = (\<lambda>s. None)\<rparr>"

section \<open>Notions used to state the properties\<close>

text \<open>
  The token count a turn holds under a key, as a number: \<open>0\<close> when the key is absent
  (or holds no number).
\<close>

definition turn_tokens :: "string \<Rightarrow> turn \<Rightarrow> rat" where
  "turn_tokens k t =
     (case map_of (token_usage t) k of
        Some v \<Rightarrow> (case py_num v of Some x \<Rightarrow> x | None \<Rightarrow> 0)
      | None \<Rightarrow> 0)"


text \<open>A flow, before aggregation, with the given turns.\<close>

definition example_flow :: "turn list \<Rightarrow> flow" where
  "example_flow ts =
     \<lparr>session_id = KStr ''session'', flow_agent_type = ''claude-code'',
      user_name = JStr ''Unknown User'', user_email = JStr ''unknown@example.com'',
      start_time = Aware 0, end_time = None, turns = ts, total_tokens = [], total_cost = 0,
      tools_used = [], error_count = 0\<rparr>"

section \<open>The turn structure the specification describes\<close>

text \<open>
  The classification of an event with its priority: user prompt before assistant
  response before tool call before tool result. A heuristic counts as matching when its
  predicate returns \<^verbatim>\<open>True\<close>.
\<close>

datatype kind = Prompt | Response | ToolCall | ToolResult | Other

definition kind_of :: "event \<Rightarrow> kind" where
  "kind_of e =
     (if is_user_prompt e = Inr True then Prompt
      else if is_assistant_response e = Inr True then Response
      else if is_tool_call e = Inr True then ToolCall
      else if is_tool_result e = Inr True then ToolResult
      else Other)"

text \<open>
  Folding one event into an open turn: the response is replaced, a tool call or a tool
  result is appended, and the token usage is updated whatever the event is.
\<close>

definition absorb :: "turn \<Rightarrow> event \<Rightarrow> turn" where
  "absorb t e =
     update_token_usage
       (case kind_of e of
          Response \<Rightarrow> t\<lparr>assistant_response := projr (extract_assistant_response e)\<rparr>
        | ToolCall \<Rightarrow> t\<lparr>tool_calls := tool_calls t @ [projr (extract_tool_call e)]\<rparr>
        | ToolResult \<Rightarrow> t\<lparr>tool_results := tool_results t @ [projr (extract_tool_result e)]\<rparr>
        | _ \<Rightarrow> t) e"

text \<open>The turn a user-prompt event opens, with the number it is given.\<close>

definition open_turn :: "string \<Rightarrow> nat \<Rightarrow> event \<Rightarrow> turn" where
  "open_turn agent n p =
     update_token_usage (new_turn agent n (projr (extract_user_prompt p)) p) p"

text \<open>
  The segments of a session: each user-prompt event with the events that follow it up
  to the next user-prompt event. Events before the first prompt are in no segment.
\<close>

fun segments :: "event list \<Rightarrow> (event \<times> event list) list" where
  "segments [] = []"
| "segments (e # es) =
     (if kind_of e = Prompt
      then (e, takeWhile (\<lambda>x. kind_of x \<noteq> Prompt) es) # segments es
      else segments es)"

definition turn_of_segment :: "string \<Rightarrow> nat \<Rightarrow> event \<times> event list \<Rightarrow> turn" where
  "turn_of_segment agent n seg = foldl absorb (open_turn agent n (fst seg)) (snd seg)"

fun number_turns :: "string \<Rightarrow> nat \<Rightarrow> (event \<times> event list) list \<Rightarrow> turn list" where
  "number_turns agent n [] = []"
| "number_turns agent n (seg # segs) =
     turn_of_segment agent (Suc n) seg # number_turns agent (Suc n) segs"

text \<open>The turns of a session as the specification describes them: one per segment.\<close>

definition turns_spec :: "string \<Rightarrow> event list \<Rightarrow> turn list" where
  "turns_spec agent evs = number_turns agent 0 (segments evs)"

definition opt_list :: "'a option \<Rightarrow> 'a list" where
  "opt_list x = (case x of Some t \<Rightarrow> [t] | None \<Rightarrow> [])"

text \<open>
  Events whose \<^verbatim>\<open>logs\<close> field is a list of dicts with a string (or no) \<^verbatim>\<open>message\<close>: on
  these no helper of the segmenter raises.
\<close>

fun log_ok :: "json \<Rightarrow> bool" where
  "log_ok (JObj d) =
     (case map_of d ''message'' of None \<Rightarrow> True | Some (JStr s) \<Rightarrow> True | Some _ \<Rightarrow> False)"
| "log_ok _ = False"

definition logs_ok :: "event \<Rightarrow> bool" where
  "logs_ok e = (case logs e of JList ls \<Rightarrow> list_all log_ok ls | _ \<Rightarrow> False)"

text \<open>The events of the examples: an event at time \<open>t\<close> with the given attributes.\<close>

definition base_event :: "int \<Rightarrow> event" where
  "base_event t =
     \<lparr>timestamp = Aware t, event_type = JStr ''unknown'', agent_type = ''claude-code'',
      span_id = JNull, trace_id = JNull, parent_span_id = JNull,
      service_name = JStr ''claude-code'', operation_name = JNull, attributes = [],
      logs = JList [], raw_data = []\<rparr>"

definition attr_event :: "json pydict \<Rightarrow> int \<Rightarrow> event" where
  "attr_event attrs t = (base_event t)\<lparr>attributes := attrs\<rparr>"

definition prompt_event :: "string \<Rightarrow> int \<Rightarrow> event" where
  "prompt_event txt t = attr_event [(KStr ''prompt'', JStr txt)] t"

definition tool_call_event :: "string \<Rightarrow> int \<Rightarrow> event" where
  "tool_call_event name t = attr_event [(KStr ''tool.name'', JStr name)] t"

definition tool_result_event :: "string \<Rightarrow> int \<Rightarrow> event" where
  "tool_result_event res t = attr_event [(KStr ''tool.result'', JStr res)] t"

text \<open>A prompt event whose log also mentions a tool.\<close>

definition prompt_with_tool_log :: "string \<Rightarrow> int \<Rightarrow> event" where
  "prompt_with_tool_log txt t =
     (prompt_event txt t)\<lparr>logs := JList [JObj [(''message'', JStr ''Calling TOOL now'')]]\<rparr>"

text \<open>
  The value of attribute \<open>a\<close> in the last event of a list that carries it, and the three
  assignments of \<^verbatim>\<open>_update_token_usage\<close> as one function on the token dict.
\<close>

fun latest_attr :: "string \<Rightarrow> event list \<Rightarrow> json option" where
  "latest_attr a [] = None"
| "latest_attr a (e # es) =
     (case latest_attr a es of Some v \<Rightarrow> Some v | None \<Rightarrow> map_of (attributes e) (KStr a))"

definition token_stores :: "event \<Rightarrow> (string \<times> json) list \<Rightarrow> (string \<times> json) list" where
  "token_stores e tu =
     token_store ''tokens.total'' ''total'' e
       (token_store ''tokens.output'' ''output'' e
         (token_store ''tokens.input'' ''input'' e tu))"

text \<open>The attribute feeding a key of the token usage: \<^verbatim>\<open>tokens.input\<close> for \<^verbatim>\<open>input\<close>.\<close>

definition token_attr :: "string \<Rightarrow> string" where
  "token_attr k = ''tokens.'' @ k"

text \<open>An event at time \<open>t\<close> carrying the token attribute \<open>a\<close> with value \<open>v\<close>.\<close>

definition token_event :: "string \<Rightarrow> int \<Rightarrow> int \<Rightarrow> event" where
  "token_event a v t = attr_event [(KStr a, JInt v)] t"

text \<open>
  The events a nested session dict holds for an agent type and a session key, the test
  that puts an event under that pair, and the well-formedness of the nested dict (no key
  twice on either level).
\<close>

definition session_events :: "sessions \<Rightarrow> string \<Rightarrow> pykey \<Rightarrow> event list" where
  "session_events g a k =
     (case map_of g a of
        None \<Rightarrow> []
      | Some s \<Rightarrow> (case map_of s k of None \<Rightarrow> [] | Some es \<Rightarrow> es))"

definition in_session :: "string \<Rightarrow> pykey \<Rightarrow> event \<Rightarrow> bool" where
  "in_session a k e \<longleftrightarrow>
     agent_type e = a
     \<and> py_key (if truthy (trace_id e) then trace_id e else service_name e) = Some k"

definition sessions_distinct :: "sessions \<Rightarrow> bool" where
  "sessions_distinct g \<longleftrightarrow>
     distinct (map fst g) \<and> list_all (\<lambda>as. distinct (map fst (snd as))) g"

text \<open>A prompt event of the other agent type, with the same service name.\<close>

definition gemini_prompt_event :: "string \<Rightarrow> int \<Rightarrow> event" where
  "gemini_prompt_event txt t = (prompt_event txt t)\<lparr>agent_type := ''gemini-cli''\<rparr>"

text \<open>
  The event name a log record carries in its body: \<^verbatim>\<open>body.stringValue\<close>, the empty string
  when the record has no body or the body no string value.
\<close>

definition log_record_name :: "(string \<times> json) list \<Rightarrow> error + json" where
  "log_record_name r = py_get (dict_get r ''body'' (JObj [])) ''stringValue'' (JStr [])"

text \<open>
  A parsed line holding log records in the OpenTelemetry envelope, and a log record with
  one attribute, no body and no \<^verbatim>\<open>event.name\<close> attribute.
\<close>

definition otel_line :: "json list \<Rightarrow> line" where
  "otel_line recs =
     Parsed (JObj [(''resourceLogs'',
       JList [JObj [(''scopeLogs'', JList [JObj [(''logRecords'', JList recs)]])]])])"

definition nameless_record_fields :: "(string \<times> json) list" where
  "nameless_record_fields =
     [(''attributes'',
       JList [JObj [(''key'', JStr ''user.id''), (''value'', JObj [(''stringValue'', JStr ''u1'')])]])]"

definition nameless_record :: json where
  "nameless_record = JObj nameless_record_fields"




section \<open>General lemmas\<close>

lemma bind_err_Inr_iff:
  "bind_err m f = Inr y \<longleftrightarrow> (\<exists>x. m = Inr x \<and> f x = Inr y)"
  by (cases m) (simp_all add: bind_err_def)

lemma bind_err_Inr [simp]: "bind_err (Inr x) f = f x"
  by (simp add: bind_err_def)

lemma bind_err_Inl [simp]: "bind_err (Inl e) f = Inl e"
  by (simp add: bind_err_def)


section \<open>Properties of the Attribute Extractor\<close>

lemma map_of_dict_update:
  "distinct (map fst other) \<Longrightarrow>
   map_of (dict_update d other) (KStr k) =
     (case map_of other k of Some v \<Rightarrow> Some v | None \<Rightarrow> map_of d (KStr k))"
proof (induction other arbitrary: d)
  case Nil
  then show ?case by (simp add: dict_update_def)
next
  case (Cons p other)
  obtain k' v' where p: "p = (k', v')" by (cases p)
  from Cons.prems p have fresh: "k' \<notin> fst ` set other" and dist: "distinct (map fst other)"
    by auto
  have step: "dict_update d (p # other) = dict_update (AList.update (KStr k') v' d) other"
    by (simp add: dict_update_def p)
  show ?case
  proof (cases "k = k'")
    case True
    with fresh have "map_of other k = None"
      by (simp add: map_of_eq_None_iff)
    then show ?thesis
      using Cons.IH [OF dist, of "AList.update (KStr k') v' d"] True p step
      by (simp add: update_conv')
  next
    case False
    then show ?thesis
      using Cons.IH [OF dist, of "AList.update (KStr k') v' d"] p step
      by (simp add: update_conv' split: option.splits)
  qed
qed

text \<open>
  C4 (as the code has it). When a record carries an event-level \<^verbatim>\<open>attributes\<close> mapping
  and a \<^verbatim>\<open>resource.attributes\<close> mapping, the extractor succeeds and every key of the
  resource-level mapping carries the resource-level value in the output, also when the
  event-level mapping has the same key: \<^verbatim>\<open>attributes.update(res_attrs)\<close> runs last and
  overwrites. Event-level values survive only for keys the resource does not have.
\<close>

theorem extract_attributes_resource_wins:
  assumes "map_of data ''attributes'' = Some (JObj ev)"
    and "map_of data ''resource'' = Some (JObj res)"
    and "map_of res ''attributes'' = Some (JObj ra)"
    and "distinct (map fst ev)" and "distinct (map fst ra)"
  shows "\<exists>out. extract_attributes data = Inr out \<and>
           (\<forall>k. map_of out (KStr k) =
                (case map_of ra k of Some v \<Rightarrow> Some v | None \<Rightarrow> map_of ev k))"
proof -
  from assms(3) have "res \<noteq> []" by auto
  then have out: "extract_attributes data = Inr (dict_update (dict_update [] ev) ra)"
    using assms(1-3)
    by (simp add: extract_attributes_def direct_attributes_def resource_attributes_def)
  have "map_of (dict_update (dict_update [] ev) ra) (KStr k) =
          (case map_of ra k of Some v \<Rightarrow> Some v | None \<Rightarrow> map_of ev k)" for k
    using map_of_dict_update [OF assms(5), of "dict_update [] ev" k]
      map_of_dict_update [OF assms(4), of "[]" k]
    by (simp split: option.splits)
  with out show ?thesis by blast
qed

theorem extract_attributes_resource_wins_witness:
  "\<exists>out. extract_attributes
       [(''attributes'', JObj [(''user.name'', JStr ''event''), (''prompt'', JStr ''hi'')]),
        (''resource'', JObj [(''attributes'', JObj [(''user.name'', JStr ''resource'')])])]
       = Inr out \<and>
     map_of out (KStr ''user.name'') = Some (JStr ''resource'') \<and>
     map_of out (KStr ''prompt'') = Some (JStr ''hi'')"
proof -
  let ?ev = "[(''user.name'', JStr ''event''), (''prompt'', JStr ''hi'')]"
  let ?ra = "[(''user.name'', JStr ''resource'')]"
  let ?res = "[(''attributes'', JObj ?ra)]"
  let ?data = "[(''attributes'', JObj ?ev), (''resource'', JObj ?res)]"
  have "\<exists>out. extract_attributes ?data = Inr out \<and>
           (\<forall>k. map_of out (KStr k) =
                (case map_of ?ra k of Some v \<Rightarrow> Some v | None \<Rightarrow> map_of ?ev k))"
    by (rule extract_attributes_resource_wins [of ?data ?ev ?res ?ra]) simp_all
  then obtain out where o: "extract_attributes ?data = Inr out"
    and m: "\<And>k. map_of out (KStr k) =
                (case map_of ?ra k of Some v \<Rightarrow> Some v | None \<Rightarrow> map_of ?ev k)"
    by blast
  have "map_of out (KStr ''user.name'') = Some (JStr ''resource'')"
    using m [of "''user.name''"] by simp
  moreover have "map_of out (KStr ''prompt'') = Some (JStr ''hi'')"
    using m [of "''prompt''"] by simp
  ultimately show ?thesis using o by blast
qed

text \<open>
  The claim as the specification words it (the event-level value is kept) fails: a
  record with \<^verbatim>\<open>attributes = {"user.name": "event"}\<close> and
  \<^verbatim>\<open>resource.attributes = {"user.name": "resource"}\<close> comes out with
  \<^verbatim>\<open>"user.name": "resource"\<close>.
\<close>

theorem extract_attributes_event_level_overwritten:
  "extract_attributes
     [(''attributes'', JObj [(''user.name'', JStr ''event'')]),
      (''resource'', JObj [(''attributes'', JObj [(''user.name'', JStr ''resource'')])])]
   = Inr [(KStr ''user.name'', JStr ''resource'')]"
  by (simp add: extract_attributes_def direct_attributes_def resource_attributes_def
      dict_update_def)

section \<open>Properties of the Statistics Aggregator\<close>








section \<open>Properties of the Turn Segmenter\<close>

lemma turn_step_prompt:
  assumes "turn_step agent (cur, past, n) e = Inr st'" and "kind_of e = Prompt"
  shows "st' = (Some (open_turn agent (Suc n) e), past @ opt_list cur, Suc n)"
proof -
  from assms(2) have p: "is_user_prompt e = Inr True"
    by (simp add: kind_of_def split: if_splits)
  from assms(1) show ?thesis
    by (auto simp: turn_step_def classify_step_def p bind_err_Inr_iff open_turn_def opt_list_def
        split: option.splits)
qed

lemma turn_step_other:
  assumes "turn_step agent (cur, past, n) e = Inr st'" and "kind_of e \<noteq> Prompt"
  shows "st' = (map_option (\<lambda>t. absorb t e) cur, past, n)"
proof -
  from assms(1) obtain p where p: "is_user_prompt e = Inr p"
    by (auto simp: turn_step_def classify_step_def bind_err_Inr_iff)
  with assms(2) have np: "is_user_prompt e = Inr False"
    by (cases p) (auto simp: kind_of_def)
  show ?thesis
  proof (cases cur)
    case None
    with assms(1) show ?thesis
      by (auto simp: turn_step_def classify_step_def np bind_err_Inr_iff split: if_splits)
  next
    case (Some t)
    with assms(1) show ?thesis
      by (auto simp: turn_step_def classify_step_def np bind_err_Inr_iff absorb_def kind_of_def
          split: if_splits)
  qed
qed


lemma segments_run:
  "fold_err (turn_step agent) (cur, past, n) evs = Inr st \<Longrightarrow>
   finish_turns st =
     past @ map (\<lambda>t. foldl absorb t (takeWhile (\<lambda>x. kind_of x \<noteq> Prompt) evs)) (opt_list cur)
          @ number_turns agent n (segments evs)"
proof (induction evs arbitrary: cur past n)
  case Nil
  then show ?case by (auto simp: finish_turns_def opt_list_def split: option.splits)
next
  case (Cons e es)
  from Cons.prems obtain st1 where st1: "turn_step agent (cur, past, n) e = Inr st1"
    and rest: "fold_err (turn_step agent) st1 es = Inr st"
    by (auto split: sum.splits)
  show ?case
  proof (cases "kind_of e = Prompt")
    case True
    from turn_step_prompt [OF st1 True] rest
    have "fold_err (turn_step agent)
            (Some (open_turn agent (Suc n) e), past @ opt_list cur, Suc n) es = Inr st"
      by simp
    from Cons.IH [OF this] True show ?thesis
      by (simp add: opt_list_def turn_of_segment_def split: option.splits)
  next
    case False
    from turn_step_other [OF st1 False] rest
    have "fold_err (turn_step agent) (map_option (\<lambda>t. absorb t e) cur, past, n) es = Inr st"
      by simp
    from Cons.IH [OF this] False show ?thesis
      by (simp add: opt_list_def split: option.splits)
  qed
qed

lemma process_refines_spec:
  "process_conversation_turns agent evs = Inr ts \<Longrightarrow> ts = turns_spec agent evs"
  by (auto simp: process_conversation_turns_def bind_err_Inr_iff turns_spec_def opt_list_def
      dest!: segments_run)

lemma turn_id_absorb [simp]: "turn_id (absorb t e) = turn_id t"
  by (simp add: absorb_def update_token_usage_def split: kind.splits)

lemma turn_id_foldl_absorb [simp]: "turn_id (foldl absorb t es) = turn_id t"
  by (induction es arbitrary: t) simp_all

lemma turn_id_turn_of_segment [simp]: "turn_id (turn_of_segment agent n seg) = n"
  by (simp add: turn_of_segment_def open_turn_def update_token_usage_def new_turn_def)


lemma length_number_turns [simp]: "length (number_turns agent n segs) = length segs"
  by (induction segs arbitrary: n) simp_all


lemma segments_drop_prefix:
  "\<forall>e\<in>set pre. kind_of e \<noteq> Prompt \<Longrightarrow> segments (pre @ evs) = segments evs"
  by (induction pre) simp_all

lemma tool_calls_absorb:
  "tool_calls (absorb t e) =
     tool_calls t @ (if kind_of e = ToolCall then [projr (extract_tool_call e)] else [])"
  by (simp add: absorb_def update_token_usage_def split: kind.splits)

lemma tool_calls_foldl_absorb:
  "tool_calls (foldl absorb t es) =
     tool_calls t @ map (\<lambda>e. projr (extract_tool_call e)) (filter (\<lambda>e. kind_of e = ToolCall) es)"
  by (induction es arbitrary: t) (simp_all add: tool_calls_absorb)

lemma tool_results_absorb:
  "tool_results (absorb t e) =
     tool_results t @ (if kind_of e = ToolResult then [projr (extract_tool_result e)] else [])"
  by (simp add: absorb_def update_token_usage_def split: kind.splits)

lemma tool_results_foldl_absorb:
  "tool_results (foldl absorb t es) =
     tool_results t
       @ map (\<lambda>e. projr (extract_tool_result e)) (filter (\<lambda>e. kind_of e = ToolResult) es)"
  by (induction es arbitrary: t) (simp_all add: tool_results_absorb)


lemma log_ok_message:
  "log_ok l \<Longrightarrow> \<exists>s. log_message l = Inr (JStr s)"
  by (cases l) (auto split: option.splits json.splits)

lemma any_log_mentions_total:
  "list_all log_ok ls \<Longrightarrow> \<exists>b. any_log_mentions w ls = Inr b"
proof (induction ls)
  case Nil
  then show ?case by auto
next
  case (Cons l ls)
  then obtain s where "log_message l = Inr (JStr s)"
    using log_ok_message by auto
  with Cons show ?case by (auto simp: log_mentions_def)
qed

lemma first_log_mentioning_total:
  "list_all log_ok ls \<Longrightarrow> \<exists>r. first_log_mentioning w ls = Inr r"
proof (induction ls)
  case Nil
  then show ?case by simp
next
  case (Cons l ls)
  then obtain s where "log_message l = Inr (JStr s)"
    using log_ok_message by auto
  with Cons show ?case by simp
qed

lemma last_log_mentioning_total:
  "list_all log_ok ls \<Longrightarrow> \<exists>r. last_log_mentioning w acc ls = Inr r"
proof (induction ls arbitrary: acc)
  case Nil
  then show ?case by simp
next
  case (Cons l ls)
  then obtain s where "log_message l = Inr (JStr s)"
    using log_ok_message by auto
  with Cons show ?case by simp
qed

lemma logs_ok_iter: "logs_ok e \<Longrightarrow> \<exists>ls. logs e = JList ls \<and> list_all log_ok ls"
  by (auto simp: logs_ok_def split: json.splits)

lemma logs_mention_total: "logs_ok e \<Longrightarrow> \<exists>b. logs_mention w e = Inr b"
  by (auto simp: logs_mention_def dest!: logs_ok_iter intro: any_log_mentions_total)

lemma predicates_total:
  assumes "logs_ok e"
  shows "\<exists>b. is_user_prompt e = Inr b" "\<exists>b. is_assistant_response e = Inr b"
    "\<exists>b. is_tool_call e = Inr b" "\<exists>b. is_tool_result e = Inr b"
  using logs_mention_total [OF assms]
  by (auto simp: is_user_prompt_def is_assistant_response_def is_tool_call_def
      is_tool_result_def)

lemma extractors_total:
  assumes "logs_ok e"
  shows "\<exists>r. extract_user_prompt e = Inr r" "\<exists>r. extract_assistant_response e = Inr r"
    "\<exists>r. extract_tool_call e = Inr r" "\<exists>r. extract_tool_result e = Inr r"
proof -
  from logs_ok_iter [OF assms] obtain ls where ls: "logs e = JList ls" "list_all log_ok ls"
    by blast
  show "\<exists>r. extract_user_prompt e = Inr r"
    using first_log_mentioning_total [OF ls(2), of "''prompt''"] ls(1)
    by (auto simp: extract_user_prompt_def split: option.splits)
  show "\<exists>r. extract_assistant_response e = Inr r"
    using first_log_mentioning_total [OF ls(2), of "''response''"] ls(1)
    by (auto simp: extract_assistant_response_def split: option.splits)
  show "\<exists>r. extract_tool_call e = Inr r"
    using last_log_mentioning_total [OF ls(2), of "''tool''" None] ls(1)
    by (auto simp: extract_tool_call_def)
  show "\<exists>r. extract_tool_result e = Inr r"
    using last_log_mentioning_total [OF ls(2), of "''result''" None] ls(1)
    by (auto simp: extract_tool_result_def)
qed

lemma classify_step_total:
  assumes "logs_ok e"
  shows "\<exists>st'. classify_step agent st e = Inr st'"
proof -
  obtain cur past n where st: "st = (cur, past, n)" by (cases st) auto
  from predicates_total [OF assms] obtain p r c s where
    "is_user_prompt e = Inr p" "is_assistant_response e = Inr r"
    "is_tool_call e = Inr c" "is_tool_result e = Inr s"
    by blast
  moreover from extractors_total [OF assms] obtain a b tc tr where
    "extract_user_prompt e = Inr a" "extract_assistant_response e = Inr b"
    "extract_tool_call e = Inr tc" "extract_tool_result e = Inr tr"
    by blast
  ultimately show ?thesis
    by (simp add: classify_step_def st)
qed

lemma turn_step_total:
  assumes "logs_ok e"
  shows "\<exists>st'. turn_step agent st e = Inr st'"
proof -
  from classify_step_total [OF assms] obtain st' where "classify_step agent st e = Inr st'"
    by blast
  then show ?thesis
    by (cases st') (auto simp: turn_step_def)
qed




lemmas example_events =
  base_event_def attr_event_def prompt_event_def tool_call_event_def tool_result_event_def
  prompt_with_tool_log_def

lemmas segmenter_defs =
  process_conversation_turns_def turn_step_def classify_step_def
  is_user_prompt_def is_assistant_response_def is_tool_call_def is_tool_result_def
  has_attr_def logs_mention_def log_mentions_def extract_user_prompt_def
  extract_assistant_response_def extract_tool_call_def extract_tool_result_def attr_get_def
  new_turn_def finish_turns_def update_token_usage_def token_store_def py_lower_def



lemma example_prompt_with_tool_log:
  "is_user_prompt (prompt_with_tool_log ''A'' 1) = Inr True
   \<and> is_tool_call (prompt_with_tool_log ''A'' 1) = Inr True
   \<and> process_conversation_turns agent [prompt_event ''Q'' 0, prompt_with_tool_log ''A'' 1]
     = Inr [\<lparr>turn_id = 1, turn_agent_type = agent, user_prompt = Some (JStr ''Q''),
            assistant_response = None, tool_calls = [], tool_results = [],
            turn_timestamp = Some (Aware 0), token_usage = [], errors = []\<rparr>,
           \<lparr>turn_id = 2, turn_agent_type = agent, user_prompt = Some (JStr ''A''),
            assistant_response = None, tool_calls = [], tool_results = [],
            turn_timestamp = Some (Aware 1), token_usage = [], errors = []\<rparr>]"
  by (simp add: segmenter_defs example_events)





lemma kind_of_cases:
  "is_user_prompt e = Inr True \<Longrightarrow> kind_of e = Prompt"
  "is_user_prompt e = Inr False \<Longrightarrow> is_assistant_response e = Inr True \<Longrightarrow> kind_of e = Response"
  "is_user_prompt e = Inr False \<Longrightarrow> is_assistant_response e = Inr False \<Longrightarrow>
     is_tool_call e = Inr True \<Longrightarrow> kind_of e = ToolCall"
  "is_user_prompt e = Inr False \<Longrightarrow> is_assistant_response e = Inr False \<Longrightarrow>
     is_tool_call e = Inr False \<Longrightarrow> is_tool_result e = Inr True \<Longrightarrow> kind_of e = ToolResult"
  by (simp_all add: kind_of_def)

lemma open_turn_fields:
  "turn_id (open_turn agent n e) = n" "tool_calls (open_turn agent n e) = []"
  "tool_results (open_turn agent n e) = []" "assistant_response (open_turn agent n e) = None"
  by (simp_all add: open_turn_def update_token_usage_def new_turn_def)

lemma absorb_fields:
  "kind_of e = Response \<Longrightarrow>
     assistant_response (absorb t e) = projr (extract_assistant_response e)
     \<and> tool_calls (absorb t e) = tool_calls t \<and> tool_results (absorb t e) = tool_results t"
  "kind_of e = ToolCall \<Longrightarrow>
     tool_calls (absorb t e) = tool_calls t @ [projr (extract_tool_call e)]
     \<and> tool_results (absorb t e) = tool_results t
     \<and> assistant_response (absorb t e) = assistant_response t"
  "kind_of e = ToolResult \<Longrightarrow>
     tool_results (absorb t e) = tool_results t @ [projr (extract_tool_result e)]
     \<and> tool_calls (absorb t e) = tool_calls t
     \<and> assistant_response (absorb t e) = assistant_response t"
  by (simp_all add: absorb_def update_token_usage_def)

lemma priority_prompt:
  assumes "turn_step agent (cur, past, n) e = Inr (cur', past', n')"
    and "is_user_prompt e = Inr True"
  shows "(\<exists>t'. cur' = Some t' \<and> turn_id t' = Suc n \<and> tool_calls t' = []
               \<and> tool_results t' = [] \<and> assistant_response t' = None)
         \<and> past' = past @ opt_list cur \<and> n' = Suc n"
  using turn_step_prompt [OF assms(1)] kind_of_cases(1) [OF assms(2)]
  by (auto simp: open_turn_fields)

lemma priority_response:
  assumes "turn_step agent (Some t, past, n) e = Inr (cur', past', n')"
    and "is_user_prompt e = Inr False" and "is_assistant_response e = Inr True"
  shows "(\<exists>t'. cur' = Some t' \<and> assistant_response t' = projr (extract_assistant_response e)
               \<and> tool_calls t' = tool_calls t \<and> tool_results t' = tool_results t)
         \<and> past' = past \<and> n' = n"
  using turn_step_other [OF assms(1)] kind_of_cases(2) [OF assms(2,3)]
    absorb_fields(1) [of e t]
  by auto

lemma priority_tool_call:
  assumes "turn_step agent (Some t, past, n) e = Inr (cur', past', n')"
    and "is_user_prompt e = Inr False" and "is_assistant_response e = Inr False"
    and "is_tool_call e = Inr True"
  shows "(\<exists>t'. cur' = Some t' \<and> tool_calls t' = tool_calls t @ [projr (extract_tool_call e)]
               \<and> tool_results t' = tool_results t
               \<and> assistant_response t' = assistant_response t)
         \<and> past' = past \<and> n' = n"
  using turn_step_other [OF assms(1)] kind_of_cases(3) [OF assms(2,3,4)]
    absorb_fields(2) [of e t]
  by auto

lemma priority_tool_result:
  assumes "turn_step agent (Some t, past, n) e = Inr (cur', past', n')"
    and "is_user_prompt e = Inr False" and "is_assistant_response e = Inr False"
    and "is_tool_call e = Inr False" and "is_tool_result e = Inr True"
  shows "(\<exists>t'. cur' = Some t' \<and> tool_results t' = tool_results t @ [projr (extract_tool_result e)]
               \<and> tool_calls t' = tool_calls t
               \<and> assistant_response t' = assistant_response t)
         \<and> past' = past \<and> n' = n"
  using turn_step_other [OF assms(1)] kind_of_cases(4) [OF assms(2,3,4,5)]
    absorb_fields(3) [of e t]
  by auto

text \<open>
  C8. Only the classification of highest priority applies. In a step of the loop that
  returns: an event that is a user prompt opens a new turn with empty tool lists and no
  response, whatever else it matches; with a turn open, an event that is no prompt but
  an assistant response only sets the response and leaves both tool lists as they are;
  one that is neither but a tool call only appends to the tool calls; one that is none
  of the three but a tool result only appends to the tool results. The example: a
  prompt event whose log mentions a tool is both a user prompt and a tool call for the
  heuristics, and it opens turn 2 with no tool call.
\<close>

theorem classification_priority:
  "(turn_step agent (cur, past, n) e = Inr (cur', past', n') \<longrightarrow>
      (is_user_prompt e = Inr True \<longrightarrow>
         (\<exists>t'. cur' = Some t' \<and> turn_id t' = Suc n \<and> tool_calls t' = []
               \<and> tool_results t' = [] \<and> assistant_response t' = None)
         \<and> past' = past @ opt_list cur \<and> n' = Suc n)
    \<and> (cur = Some t \<and> is_user_prompt e = Inr False \<and> is_assistant_response e = Inr True \<longrightarrow>
         (\<exists>t'. cur' = Some t' \<and> assistant_response t' = projr (extract_assistant_response e)
               \<and> tool_calls t' = tool_calls t \<and> tool_results t' = tool_results t)
         \<and> past' = past \<and> n' = n)
    \<and> (cur = Some t \<and> is_user_prompt e = Inr False \<and> is_assistant_response e = Inr False
          \<and> is_tool_call e = Inr True \<longrightarrow>
         (\<exists>t'. cur' = Some t' \<and> tool_calls t' = tool_calls t @ [projr (extract_tool_call e)]
               \<and> tool_results t' = tool_results t
               \<and> assistant_response t' = assistant_response t)
         \<and> past' = past \<and> n' = n)
    \<and> (cur = Some t \<and> is_user_prompt e = Inr False \<and> is_assistant_response e = Inr False
          \<and> is_tool_call e = Inr False \<and> is_tool_result e = Inr True \<longrightarrow>
         (\<exists>t'. cur' = Some t' \<and> tool_results t' = tool_results t @ [projr (extract_tool_result e)]
               \<and> tool_calls t' = tool_calls t
               \<and> assistant_response t' = assistant_response t)
         \<and> past' = past \<and> n' = n))
   \<and> is_user_prompt (prompt_with_tool_log ''A'' 1) = Inr True
   \<and> is_tool_call (prompt_with_tool_log ''A'' 1) = Inr True
   \<and> process_conversation_turns agent [prompt_event ''Q'' 0, prompt_with_tool_log ''A'' 1]
     = Inr [\<lparr>turn_id = 1, turn_agent_type = agent, user_prompt = Some (JStr ''Q''),
              assistant_response = None, tool_calls = [], tool_results = [],
              turn_timestamp = Some (Aware 0), token_usage = [], errors = []\<rparr>,
            \<lparr>turn_id = 2, turn_agent_type = agent, user_prompt = Some (JStr ''A''),
              assistant_response = None, tool_calls = [], tool_results = [],
              turn_timestamp = Some (Aware 1), token_usage = [], errors = []\<rparr>]"
  using priority_prompt [of agent cur past n e cur' past' n']
    priority_response [of agent t past n e cur' past' n']
    priority_tool_call [of agent t past n e cur' past' n']
    priority_tool_result [of agent t past n e cur' past' n']
    example_prompt_with_tool_log [of agent]
  by blast

theorem classification_priority_witness:
  "(\<exists>c p m. turn_step ''claude-code''
        (Some (open_turn ''claude-code'' 1 (prompt_event ''Q'' 0)), [], 1)
        (prompt_with_tool_log ''A'' 1) = Inr (c, p, m)
      \<and> (\<exists>t'. c = Some t' \<and> turn_id t' = 2 \<and> tool_calls t' = [])
      \<and> p = [open_turn ''claude-code'' 1 (prompt_event ''Q'' 0)] \<and> m = 2)
   \<and> (\<exists>c p m. turn_step ''claude-code''
        (Some (open_turn ''claude-code'' 1 (prompt_event ''Q'' 0)), [], 1)
        (attr_event [(KStr ''response'', JStr ''R''), (KStr ''tool.name'', JStr ''X'')] 2)
          = Inr (c, p, m)
      \<and> (\<exists>t'. c = Some t' \<and> assistant_response t' = Some (JStr ''R'') \<and> tool_calls t' = []))
   \<and> (\<exists>c p m. turn_step ''claude-code''
        (Some (open_turn ''claude-code'' 1 (prompt_event ''Q'' 0)), [], 1)
        (attr_event [(KStr ''tool.name'', JStr ''X''), (KStr ''tool.result'', JStr ''ok'')] 3)
          = Inr (c, p, m)
      \<and> (\<exists>t'. c = Some t' \<and> map tc_name (tool_calls t') = [JStr ''X'']
             \<and> tool_results t' = []))
   \<and> (\<exists>c p m. turn_step ''claude-code''
        (Some (open_turn ''claude-code'' 1 (prompt_event ''Q'' 0)), [], 1)
        (tool_result_event ''ok'' 4) = Inr (c, p, m)
      \<and> (\<exists>t'. c = Some t' \<and> map tr_result (tool_results t') = [JStr ''ok'']
             \<and> tool_calls t' = []))"
proof -
  let ?A = "''claude-code''"
  let ?t = "open_turn ?A 1 (prompt_event ''Q'' 0)"
  let ?e1 = "prompt_with_tool_log ''A'' 1"
  let ?e2 = "attr_event [(KStr ''response'', JStr ''R''), (KStr ''tool.name'', JStr ''X'')] 2"
  let ?e3 = "attr_event [(KStr ''tool.name'', JStr ''X''), (KStr ''tool.result'', JStr ''ok'')] 3"
  let ?e4 = "tool_result_event ''ok'' 4"
  have t: "tool_calls ?t = []" "tool_results ?t = []" "opt_list (Some ?t) = [?t]"
    by (simp_all add: open_turn_fields opt_list_def)
  have ok: "logs_ok ?e1" "logs_ok ?e2" "logs_ok ?e3" "logs_ok ?e4"
    by (simp_all add: logs_ok_def example_events)
  have k1: "is_user_prompt ?e1 = Inr True"
    by (simp add: segmenter_defs example_events)
  have k2: "is_user_prompt ?e2 = Inr False" "is_assistant_response ?e2 = Inr True"
    "projr (extract_assistant_response ?e2) = Some (JStr ''R'')"
    by (simp_all add: segmenter_defs example_events)
  have k3: "is_user_prompt ?e3 = Inr False" "is_assistant_response ?e3 = Inr False"
    "is_tool_call ?e3 = Inr True" "tc_name (projr (extract_tool_call ?e3)) = JStr ''X''"
    by (simp_all add: segmenter_defs example_events)
  have k4: "is_user_prompt ?e4 = Inr False" "is_assistant_response ?e4 = Inr False"
    "is_tool_call ?e4 = Inr False" "is_tool_result ?e4 = Inr True"
    "tr_result (projr (extract_tool_result ?e4)) = JStr ''ok''"
    by (simp_all add: segmenter_defs example_events)
  from turn_step_total [OF ok(1), of ?A "(Some ?t, [], 1)"]
  obtain c1 p1 m1 where s1: "turn_step ?A (Some ?t, [], 1) ?e1 = Inr (c1, p1, m1)"
    by auto
  from turn_step_total [OF ok(2), of ?A "(Some ?t, [], 1)"]
  obtain c2 p2 m2 where s2: "turn_step ?A (Some ?t, [], 1) ?e2 = Inr (c2, p2, m2)"
    by auto
  from turn_step_total [OF ok(3), of ?A "(Some ?t, [], 1)"]
  obtain c3 p3 m3 where s3: "turn_step ?A (Some ?t, [], 1) ?e3 = Inr (c3, p3, m3)"
    by auto
  from turn_step_total [OF ok(4), of ?A "(Some ?t, [], 1)"]
  obtain c4 p4 m4 where s4: "turn_step ?A (Some ?t, [], 1) ?e4 = Inr (c4, p4, m4)"
    by auto
  from classification_priority [of ?A "Some ?t" "[]" 1 ?e1 c1 p1 m1 ?t] s1 k1 t
  have r1: "(\<exists>t'. c1 = Some t' \<and> turn_id t' = 2 \<and> tool_calls t' = []) \<and> p1 = [?t] \<and> m1 = 2"
    by auto
  from classification_priority [of ?A "Some ?t" "[]" 1 ?e2 c2 p2 m2 ?t] s2 k2 t
  have r2: "\<exists>t'. c2 = Some t' \<and> assistant_response t' = Some (JStr ''R'') \<and> tool_calls t' = []"
    by auto
  from classification_priority [of ?A "Some ?t" "[]" 1 ?e3 c3 p3 m3 ?t] s3 k3 t
  have r3: "\<exists>t'. c3 = Some t' \<and> map tc_name (tool_calls t') = [JStr ''X'']
      \<and> tool_results t' = []"
    by auto
  from classification_priority [of ?A "Some ?t" "[]" 1 ?e4 c4 p4 m4 ?t] s4 k4 t
  have r4: "\<exists>t'. c4 = Some t' \<and> map tr_result (tool_results t') = [JStr ''ok'']
      \<and> tool_calls t' = []"
    by auto
  from s1 r1 have w1: "\<exists>c p m. turn_step ?A (Some ?t, [], 1) ?e1 = Inr (c, p, m)
      \<and> (\<exists>t'. c = Some t' \<and> turn_id t' = 2 \<and> tool_calls t' = [])
      \<and> p = [?t] \<and> m = 2"
    by (intro exI [of _ c1] exI [of _ p1] exI [of _ m1]) simp
  from s2 r2 have w2: "\<exists>c p m. turn_step ?A (Some ?t, [], 1) ?e2 = Inr (c, p, m)
      \<and> (\<exists>t'. c = Some t' \<and> assistant_response t' = Some (JStr ''R'') \<and> tool_calls t' = [])"
    by (intro exI [of _ c2] exI [of _ p2] exI [of _ m2]) simp
  from s3 r3 have w3: "\<exists>c p m. turn_step ?A (Some ?t, [], 1) ?e3 = Inr (c, p, m)
      \<and> (\<exists>t'. c = Some t' \<and> map tc_name (tool_calls t') = [JStr ''X'']
             \<and> tool_results t' = [])"
    by (intro exI [of _ c3] exI [of _ p3] exI [of _ m3]) simp
  from s4 r4 have w4: "\<exists>c p m. turn_step ?A (Some ?t, [], 1) ?e4 = Inr (c, p, m)
      \<and> (\<exists>t'. c = Some t' \<and> map tr_result (tool_results t') = [JStr ''ok'']
             \<and> tool_calls t' = [])"
    by (intro exI [of _ c4] exI [of _ p4] exI [of _ m4]) simp
  from w1 w2 w3 w4 show ?thesis
    by (intro conjI)
qed

section \<open>Token usage\<close>

lemma map_of_token_store:
  "map_of (token_store a k e tu) k' =
     (if k' = k then (case map_of (attributes e) (KStr a) of Some v \<Rightarrow> Some v
                      | None \<Rightarrow> map_of tu k)
      else map_of tu k')"
  by (simp add: token_store_def update_conv' split: option.splits)

lemma map_of_token_stores:
  assumes "k \<in> {''input'', ''output'', ''total''}"
  shows "map_of (token_stores e tu) k =
     (case map_of (attributes e) (KStr (token_attr k)) of Some v \<Rightarrow> Some v
      | None \<Rightarrow> map_of tu k)"
proof -
  from assms consider "k = ''input''" | "k = ''output''" | "k = ''total''"
    by auto
  then show ?thesis
  proof cases
    case 1
    then show ?thesis
      by (simp add: token_stores_def map_of_token_store token_attr_def split: option.splits)
  next
    case 2
    then show ?thesis
      by (simp add: token_stores_def map_of_token_store token_attr_def split: option.splits)
  next
    case 3
    then show ?thesis
      by (simp add: token_stores_def map_of_token_store token_attr_def split: option.splits)
  qed
qed

lemma distinct_token_store:
  "distinct (map fst tu) \<Longrightarrow> distinct (map fst (token_store a k e tu))"
  by (simp add: token_store_def distinct_update split: option.splits)

lemma distinct_token_stores:
  "distinct (map fst tu) \<Longrightarrow> distinct (map fst (token_stores e tu))"
  by (simp add: token_stores_def distinct_token_store)

lemma token_usage_absorb: "token_usage (absorb t e) = token_stores e (token_usage t)"
  by (simp add: absorb_def update_token_usage_def token_stores_def split: kind.splits)

lemma token_usage_open_turn: "token_usage (open_turn agent n p) = token_stores p []"
  by (simp add: open_turn_def update_token_usage_def token_stores_def new_turn_def)

lemma token_usage_foldl_absorb:
  assumes "k \<in> {''input'', ''output'', ''total''}"
  shows "map_of (token_usage (foldl absorb t es)) k =
     (case latest_attr (token_attr k) es of Some v \<Rightarrow> Some v
      | None \<Rightarrow> map_of (token_usage t) k)"
proof (induction es arbitrary: t)
  case Nil
  then show ?case by simp
next
  case (Cons e es)
  show ?case
    using Cons.IH [of "absorb t e"] map_of_token_stores [OF assms, of e "token_usage t"]
    by (simp add: token_usage_absorb split: option.splits)
qed

lemma token_usage_turn_of_segment:
  assumes "k \<in> {''input'', ''output'', ''total''}"
  shows "map_of (token_usage (turn_of_segment agent n seg)) k =
     latest_attr (token_attr k) (fst seg # snd seg)"
  using token_usage_foldl_absorb [OF assms, of "open_turn agent n (fst seg)" "snd seg"]
    map_of_token_stores [OF assms, of "fst seg" "[]"]
  by (simp add: turn_of_segment_def token_usage_open_turn split: option.splits)

lemma token_usage_number_turns:
  assumes "k \<in> {''input'', ''output'', ''total''}"
  shows "map (\<lambda>t. map_of (token_usage t) k) (number_turns agent n segs) =
     map (\<lambda>seg. latest_attr (token_attr k) (fst seg # snd seg)) segs"
  by (induction segs arbitrary: n) (simp_all add: token_usage_turn_of_segment [OF assms])

lemma distinct_foldl_absorb:
  "distinct (map fst (token_usage t)) \<Longrightarrow> distinct (map fst (token_usage (foldl absorb t es)))"
  by (induction es arbitrary: t) (simp_all add: token_usage_absorb distinct_token_stores)

lemma distinct_turn_of_segment:
  "distinct (map fst (token_usage (turn_of_segment agent n seg)))"
  by (simp add: turn_of_segment_def distinct_foldl_absorb token_usage_open_turn
      distinct_token_stores)

lemma distinct_number_turns:
  "t \<in> set (number_turns agent n segs) \<Longrightarrow> distinct (map fst (token_usage t))"
  by (induction segs arbitrary: n) (auto simp: distinct_turn_of_segment)

lemma dd_get_update:
  "dd_get (AList.update k v d) k' dflt = (if k' = k then v else dd_get d k' dflt)"
  by (simp add: dd_get_def update_conv')

lemma fold_add_token:
  "fold_err add_token tt items = Inr tt' \<Longrightarrow> distinct (map fst items) \<Longrightarrow>
   dd_get tt' k 0 = dd_get tt k 0 +
     (case map_of items k of
        Some v \<Rightarrow> (case py_num v of Some x \<Rightarrow> x | None \<Rightarrow> 0)
      | None \<Rightarrow> 0)"
proof (induction items arbitrary: tt)
  case Nil
  then show ?case by simp
next
  case (Cons kv items)
  obtain k' v where kv: "kv = (k', v)" by (cases kv)
  from Cons.prems(1) obtain tt1 where tt1: "add_token tt kv = Inr tt1"
    and rest: "fold_err add_token tt1 items = Inr tt'"
    by (auto split: sum.splits)
  from tt1 kv obtain x where x: "py_num v = Some x"
    and tt1_eq: "tt1 = AList.update k' (dd_get tt k' 0 + x) tt"
    by (auto simp: add_token_def split: option.splits)
  from Cons.prems(2) kv have dist: "distinct (map fst items)" and fresh: "k' \<notin> fst ` set items"
    by auto
  from fresh have none: "map_of items k' = None"
    by (simp add: map_of_eq_None_iff)
  show ?case
    using Cons.IH [OF rest dist] none x
    by (auto simp: kv tt1_eq dd_get_update)
qed

lemma turn_statistics_tokens:
  assumes "turn_statistics f t = Inr f'" and "distinct (map fst (token_usage t))"
  shows "dd_get (total_tokens f') k 0 = dd_get (total_tokens f) k 0 + turn_tokens k t"
proof -
  from assms(1) obtain tt where tt: "fold_err add_token (total_tokens f) (token_usage t) = Inr tt"
    and f': "total_tokens f' = tt"
    by (auto simp: turn_statistics_def bind_err_Inr_iff)
  from fold_add_token [OF tt assms(2), of k] f' show ?thesis
    by (simp add: turn_tokens_def)
qed

lemma fold_turn_statistics_tokens:
  "fold_err turn_statistics f ts = Inr f' \<Longrightarrow>
   \<forall>t\<in>set ts. distinct (map fst (token_usage t)) \<Longrightarrow>
   dd_get (total_tokens f') k 0 = dd_get (total_tokens f) k 0 + (\<Sum>t\<leftarrow>ts. turn_tokens k t)"
proof (induction ts arbitrary: f)
  case Nil
  then show ?case by simp
next
  case (Cons t ts)
  from Cons.prems(1) obtain g where g: "turn_statistics f t = Inr g"
    and rest: "fold_err turn_statistics g ts = Inr f'"
    by (auto split: sum.splits)
  from Cons.prems(2) have d: "distinct (map fst (token_usage t))"
    and ds: "\<forall>t\<in>set ts. distinct (map fst (token_usage t))"
    by simp_all
  show ?case
    using Cons.IH [OF rest ds] turn_statistics_tokens [OF g d, of k] by simp
qed

lemma flow_total_tokens:
  assumes "process_conversation_turns agent evs = Inr ts" and "turns f = ts"
    and "calculate_flow_statistics f = Inr f'"
  shows "dd_get (total_tokens f') k 0 = (\<Sum>t\<leftarrow>ts. turn_tokens k t)"
proof -
  from assms(1) have "ts = turns_spec agent evs" by (rule process_refines_spec)
  then have "\<forall>t\<in>set ts. distinct (map fst (token_usage t))"
    by (auto simp: turns_spec_def dest: distinct_number_turns)
  from fold_turn_statistics_tokens [OF _ this, of _ f' k] assms(2,3) show ?thesis
    by (simp add: calculate_flow_statistics_def dd_get_def)
qed

lemma turn_token_usage:
  assumes "process_conversation_turns agent evs = Inr ts"
    and "k \<in> {''input'', ''output'', ''total''}"
  shows "map (\<lambda>t. map_of (token_usage t) k) ts =
     map (\<lambda>seg. latest_attr (token_attr k) (fst seg # snd seg)) (segments evs)"
  using process_refines_spec [OF assms(1)] token_usage_number_turns [OF assms(2)]
  by (simp add: turns_spec_def)

text \<open>
  C2 (as the code has it). \<^verbatim>\<open>_update_token_usage\<close> assigns, it does not add: when the
  segmenter returns, each turn holds under a key (\<^verbatim>\<open>input\<close>, \<^verbatim>\<open>output\<close>, \<^verbatim>\<open>total\<close>) the
  value of the last event of its segment (the prompt event included) that carries the
  matching \<^verbatim>\<open>tokens.*\<close> attribute. The flow's \<^verbatim>\<open>total_tokens\<close> is, per key, the sum over
  the turns of these per-turn values.
\<close>

theorem token_usage_last_write:
  "(process_conversation_turns agent evs = Inr ts \<and> k \<in> {''input'', ''output'', ''total''}
      \<longrightarrow>
      map (\<lambda>t. map_of (token_usage t) k) ts =
        map (\<lambda>seg. latest_attr (token_attr k) (fst seg # snd seg)) (segments evs))
   \<and> (process_conversation_turns agent evs = Inr ts \<and> turns f = ts
        \<and> calculate_flow_statistics f = Inr f' \<longrightarrow>
      dd_get (total_tokens f') k 0 = (\<Sum>t\<leftarrow>ts. turn_tokens k t))"
  using turn_token_usage [of agent evs ts k] flow_total_tokens [of agent evs ts f f' k]
  by blast

theorem token_usage_last_write_witness:
  "\<exists>T F.
     process_conversation_turns ''claude-code''
       [prompt_event ''Q'' 0, token_event ''tokens.input'' 1 1, token_event ''tokens.input'' 2 2]
       = Inr T
     \<and> map (\<lambda>t. map_of (token_usage t) ''input'') T = [Some (JInt 2)]
     \<and> segments
         [prompt_event ''Q'' 0, token_event ''tokens.input'' 1 1, token_event ''tokens.input'' 2 2]
       = [(prompt_event ''Q'' 0,
           [token_event ''tokens.input'' 1 1, token_event ''tokens.input'' 2 2])]
     \<and> calculate_flow_statistics (example_flow T) = Inr F
     \<and> dd_get (total_tokens F) ''input'' 0 = 2
     \<and> (\<Sum>t\<leftarrow>T. turn_tokens ''input'' t) = 2"
proof -
  let ?A = "''claude-code''"
  let ?p = "prompt_event ''Q'' 0"
  let ?a = "token_event ''tokens.input'' 1 1"
  let ?b = "token_event ''tokens.input'' 2 2"
  let ?evs = "[?p, ?a, ?b]"
  let ?T = "[\<lparr>turn_id = 1, turn_agent_type = ?A, user_prompt = Some (JStr ''Q''),
              assistant_response = None, tool_calls = [], tool_results = [],
              turn_timestamp = Some (Aware 0), token_usage = [(''input'', JInt 2)],
              errors = []\<rparr>]"
  let ?F = "(example_flow ?T)\<lparr>total_tokens := [(''input'', 2)], total_cost := 2 / 100000\<rparr>"
  have run: "process_conversation_turns ?A ?evs = Inr ?T"
    by (simp add: segmenter_defs example_events token_event_def)
  have k: "''input'' \<in> {''input'', ''output'', ''total''}"
    by simp
  have f: "turns (example_flow ?T) = ?T"
    by (simp add: example_flow_def)
  have calc: "calculate_flow_statistics (example_flow ?T) = Inr ?F"
    by (simp add: example_flow_def calculate_flow_statistics_def turn_statistics_def
        add_token_def add_cost_def dd_get_def)
  have segs: "segments ?evs = [(?p, [?a, ?b])]"
    by (simp add: kind_of_def segmenter_defs example_events token_event_def)
  note inst = token_usage_last_write [of ?A ?evs ?T "''input''" "example_flow ?T" ?F]
  from inst run k have "map (\<lambda>t. map_of (token_usage t) ''input'') ?T =
        map (\<lambda>seg. latest_attr (token_attr ''input'') (fst seg # snd seg)) (segments ?evs)"
    by blast
  then have c2: "map (\<lambda>t. map_of (token_usage t) ''input'') ?T = [Some (JInt 2)]"
    by simp
  from inst run f calc
  have c5: "dd_get (total_tokens ?F) ''input'' 0 = (\<Sum>t\<leftarrow>?T. turn_tokens ''input'' t)"
    by blast
  have c6: "(\<Sum>t\<leftarrow>?T. turn_tokens ''input'' t) = 2"
    by (simp add: turn_tokens_def)
  from c5 c6 have c5': "dd_get (total_tokens ?F) ''input'' 0 = 2"
    by simp
  from run c2 segs calc c5' c6 have "process_conversation_turns ?A ?evs = Inr ?T
     \<and> map (\<lambda>t. map_of (token_usage t) ''input'') ?T = [Some (JInt 2)]
     \<and> segments ?evs = [(?p, [?a, ?b])]
     \<and> calculate_flow_statistics (example_flow ?T) = Inr ?F
     \<and> dd_get (total_tokens ?F) ''input'' 0 = 2
     \<and> (\<Sum>t\<leftarrow>?T. turn_tokens ''input'' t) = 2"
    by (intro conjI)
  then show ?thesis
    by (intro exI [of _ ?T] exI [of _ ?F])
qed

text \<open>
  The claim as the specification words it (an additive, order-independent count) fails.
  One turn with two events carrying \<^verbatim>\<open>tokens.input\<close> 1 and 2, with equal timestamps: in
  the one arrival order the turn and the flow count 2, in the other 1, and never the
  sum 3.
\<close>

theorem token_usage_not_additive:
  "map_sum (\<lambda>e. e) (map token_usage)
     (process_conversation_turns ''claude-code''
        [prompt_event ''Q'' 0, token_event ''tokens.input'' 1 1, token_event ''tokens.input'' 2 1])
     = Inr [[(''input'', JInt 2)]]
   \<and> map_sum (\<lambda>e. e) (map token_usage)
     (process_conversation_turns ''claude-code''
        [prompt_event ''Q'' 0, token_event ''tokens.input'' 2 1, token_event ''tokens.input'' 1 1])
     = Inr [[(''input'', JInt 1)]]
   \<and> map_sum (\<lambda>e. e) (map total_tokens)
     (session_flow ''claude-code'' (KStr ''claude-code'',
        [prompt_event ''Q'' 0, token_event ''tokens.input'' 1 1, token_event ''tokens.input'' 2 1]))
     = Inr [[(''input'', 2)]]
   \<and> map_sum (\<lambda>e. e) (map total_tokens)
     (session_flow ''claude-code'' (KStr ''claude-code'',
        [prompt_event ''Q'' 0, token_event ''tokens.input'' 2 1, token_event ''tokens.input'' 1 1]))
     = Inr [[(''input'', 1)]]"
  by (simp add: segmenter_defs example_events token_event_def session_flow_def
      sort_by_timestamp_def calculate_flow_statistics_def turn_statistics_def add_token_def
      add_cost_def dd_get_def)

section \<open>Properties of the Session Grouper\<close>

lemma group_event_lookup:
  assumes "group_event g e = Inr g'"
  shows "session_events g' a k =
     session_events g a k @ (if in_session a k e then [e] else [])"
proof -
  from assms obtain k' where k': "py_key (session_key e) = Some k'"
    and g': "g' = AList.map_default (agent_type e) [(k', [e])]
                 (\<lambda>s. AList.map_default k' [e] (\<lambda>es. es @ [e]) s) g"
    by (auto simp: group_event_def split: option.splits)
  show ?thesis
    using k'
    by (auto simp: g' session_events_def in_session_def session_key_def map_of_map_default
        split: option.splits)
qed

lemma group_events_lookup_gen:
  "fold_err group_event g es = Inr g' \<Longrightarrow>
   session_events g' a k = session_events g a k @ filter (in_session a k) es"
proof (induction es arbitrary: g)
  case Nil
  then show ?case by simp
next
  case (Cons e es)
  from Cons.prems obtain g1 where g1: "group_event g e = Inr g1"
    and rest: "fold_err group_event g1 es = Inr g'"
    by (auto split: sum.splits)
  show ?case
    using Cons.IH [OF rest] group_event_lookup [OF g1, of a k] by simp
qed

lemma group_event_distinct:
  assumes "group_event g e = Inr g'" and "sessions_distinct g"
  shows "sessions_distinct g'"
proof -
  from assms(1) obtain k' where
    g': "g' = AList.map_default (agent_type e) [(k', [e])]
                 (\<lambda>s. AList.map_default k' [e] (\<lambda>es. es @ [e]) s) g"
    by (auto simp: group_event_def split: option.splits)
  have inner: "list_all (\<lambda>as. distinct (map fst (snd as))) g \<Longrightarrow>
     list_all (\<lambda>as. distinct (map fst (snd as)))
       (AList.map_default a [(k', [e])] (\<lambda>s. AList.map_default k' [e] (\<lambda>es. es @ [e]) s) g)"
    for a
    by (induction g) (auto simp: distinct_map_default)
  from assms(2) show ?thesis
    by (simp add: sessions_distinct_def g' distinct_map_default inner)
qed

lemma group_events_distinct_gen:
  "fold_err group_event g es = Inr g' \<Longrightarrow> sessions_distinct g \<Longrightarrow> sessions_distinct g'"
proof (induction es arbitrary: g)
  case Nil
  then show ?case by simp
next
  case (Cons e es)
  from Cons.prems(1) obtain g1 where g1: "group_event g e = Inr g1"
    and rest: "fold_err group_event g1 es = Inr g'"
    by (auto split: sum.splits)
  from Cons.IH [OF rest group_event_distinct [OF g1 Cons.prems(2)]] show ?case .
qed

lemma session_events_member:
  assumes "sessions_distinct g" and "(a, s) \<in> set g" and "(k, evs) \<in> set s"
  shows "session_events g a k = evs"
proof -
  from assms(1,2) have "map_of g a = Some s"
    by (simp add: sessions_distinct_def)
  moreover from assms(1,2) have "distinct (map fst s)"
    by (auto simp: sessions_distinct_def list_all_iff)
  with assms(3) have "map_of s k = Some evs"
    by simp
  ultimately show ?thesis
    by (simp add: session_events_def)
qed

lemma group_events_partition:
  assumes "group_events es = Inr g" and "(a, s) \<in> set g" and "(k, evs) \<in> set s"
  shows "evs = filter (in_session a k) es"
proof -
  from assms(1) have run: "fold_err group_event [] es = Inr g"
    by (simp add: group_events_def)
  have "sessions_distinct []"
    by (simp add: sessions_distinct_def)
  from group_events_distinct_gen [OF run this] have "sessions_distinct g" .
  from session_events_member [OF this assms(2,3)]
    group_events_lookup_gen [OF run, of a k]
  show ?thesis
    by (simp add: session_events_def)
qed

lemma group_events_total:
  "\<forall>e\<in>set es. py_key (session_key e) \<noteq> None \<Longrightarrow> \<exists>g'. fold_err group_event g es = Inr g'"
proof (induction es arbitrary: g)
  case Nil
  then show ?case by simp
next
  case (Cons e es)
  then obtain k where "py_key (session_key e) = Some k" by auto
  then obtain g1 where "group_event g e = Inr g1"
    by (simp add: group_event_def)
  with Cons show ?case by simp
qed

lemma turn_statistics_keeps:
  "turn_statistics f t = Inr f' \<Longrightarrow>
   turns f' = turns f \<and> session_id f' = session_id f \<and> flow_agent_type f' = flow_agent_type f"
  by (auto simp: turn_statistics_def bind_err_Inr_iff)

lemma fold_turn_statistics_keeps:
  "fold_err turn_statistics f ts = Inr f' \<Longrightarrow>
   turns f' = turns f \<and> session_id f' = session_id f \<and> flow_agent_type f' = flow_agent_type f"
proof (induction ts arbitrary: f)
  case Nil
  then show ?case by simp
next
  case (Cons t ts)
  from Cons.prems obtain g where g: "turn_statistics f t = Inr g"
    and rest: "fold_err turn_statistics g ts = Inr f'"
    by (auto split: sum.splits)
  from Cons.IH [OF rest] turn_statistics_keeps [OF g] show ?case by simp
qed

lemma calculate_flow_statistics_keeps:
  "calculate_flow_statistics f = Inr f' \<Longrightarrow>
   turns f' = turns f \<and> session_id f' = session_id f \<and> flow_agent_type f' = flow_agent_type f"
  by (auto simp: calculate_flow_statistics_def dest!: fold_turn_statistics_keeps)

lemma session_flow_member:
  assumes "session_flow a (k, evs) = Inr fs" and "f \<in> set fs"
  shows "flow_agent_type f = a \<and> session_id f = k
     \<and> (\<exists>ys. sort_by_timestamp evs = Inr ys
            \<and> process_conversation_turns a ys = Inr (turns f))"
proof -
  from assms(1) obtain ys where ys: "sort_by_timestamp evs = Inr ys"
    unfolding session_flow_def bind_err_Inr_iff snd_conv by blast
  show ?thesis
  proof (cases ys)
    case Nil
    with assms ys show ?thesis
      by (simp add: session_flow_def)
  next
    case (Cons first rest)
    let ?f0 = "\<lambda>ts. \<lparr>session_id = k, flow_agent_type = a,
                  user_name = extract_user_name ys,
                  user_email = extract_user_email ys,
                  start_time = timestamp first,
                  end_time = Some (timestamp (last ys)),
                  turns = ts, total_tokens = [], total_cost = 0, tools_used = [],
                  error_count = 0\<rparr>"
    from assms(1) ys Cons
    have "bind_err (process_conversation_turns a ys) (\<lambda>ts.
             bind_err (calculate_flow_statistics (?f0 ts)) (\<lambda>f. Inr [f])) = Inr fs"
      by (simp add: session_flow_def)
    then obtain ts f0 where ts: "process_conversation_turns a ys = Inr ts"
      and f0: "calculate_flow_statistics (?f0 ts) = Inr f0"
      and fs: "fs = [f0]"
      unfolding bind_err_Inr_iff by blast
    from fs assms(2) have "f = f0" by simp
    with calculate_flow_statistics_keeps [OF f0] ts ys show ?thesis
      by simp
  qed
qed

lemma flows_of_sessions_member:
  "flows_of_sessions a s = Inr fs \<Longrightarrow> f \<in> set fs \<Longrightarrow>
   \<exists>k evs fs'. (k, evs) \<in> set s \<and> session_flow a (k, evs) = Inr fs' \<and> f \<in> set fs'"
proof (induction s arbitrary: fs)
  case Nil
  then show ?case by simp
next
  case (Cons kv s)
  obtain k evs where kv: "kv = (k, evs)" by (cases kv)
  from Cons.prems(1) obtain fs1 fs2 where fs1: "session_flow a kv = Inr fs1"
    and fs2: "flows_of_sessions a s = Inr fs2" and fs: "fs = fs1 @ fs2"
    by (auto simp: bind_err_Inr_iff)
  from Cons.prems(2) fs consider "f \<in> set fs1" | "f \<in> set fs2" by auto
  then show ?case
  proof cases
    case 1
    with fs1 kv show ?thesis by auto
  next
    case 2
    from Cons.IH [OF fs2 2] show ?thesis by auto
  qed
qed

lemma flows_of_agents_member:
  "flows_of_agents g = Inr fs \<Longrightarrow> f \<in> set fs \<Longrightarrow>
   \<exists>a s k evs fs'. (a, s) \<in> set g \<and> (k, evs) \<in> set s
      \<and> session_flow a (k, evs) = Inr fs' \<and> f \<in> set fs'"
proof (induction g arbitrary: fs)
  case Nil
  then show ?case by simp
next
  case (Cons as g)
  obtain a s where as: "as = (a, s)" by (cases as)
  from Cons.prems(1) obtain fs1 fs2 where fs1: "flows_of_sessions a s = Inr fs1"
    and fs2: "flows_of_agents g = Inr fs2" and fs: "fs = fs1 @ fs2"
    by (auto simp: bind_err_Inr_iff as)
  from Cons.prems(2) fs consider "f \<in> set fs1" | "f \<in> set fs2" by auto
  then show ?case
  proof cases
    case 1
    from flows_of_sessions_member [OF fs1 1] obtain k evs fs' where
      "(k, evs) \<in> set s" "session_flow a (k, evs) = Inr fs'" "f \<in> set fs'"
      by blast
    moreover have "(a, s) \<in> set (as # g)"
      by (simp add: as)
    ultimately show ?thesis by blast
  next
    case 2
    from Cons.IH [OF fs2 2] obtain a' s' k evs fs' where
      "(a', s') \<in> set g" "(k, evs) \<in> set s'" "session_flow a' (k, evs) = Inr fs'"
      "f \<in> set fs'"
      by blast
    moreover from this(1) have "(a', s') \<in> set (as # g)"
      by simp
    ultimately show ?thesis by blast
  qed
qed

lemma flow_from_session:
  assumes "analyze_conversation_flow es = Inr fs" and "f \<in> set fs"
  shows "\<exists>ys.
     sort_by_timestamp (filter (in_session (flow_agent_type f) (session_id f)) es) = Inr ys
     \<and> process_conversation_turns (flow_agent_type f) ys = Inr (turns f)"
proof -
  from assms(1) obtain g where g: "group_events es = Inr g"
    and fl: "flows_of_agents g = Inr fs"
    by (auto simp: analyze_conversation_flow_def bind_err_Inr_iff)
  from flows_of_agents_member [OF fl assms(2)] obtain a s k evs fs' where
    mem: "(a, s) \<in> set g" "(k, evs) \<in> set s"
    and sf: "session_flow a (k, evs) = Inr fs'" and f: "f \<in> set fs'"
    by blast
  from group_events_partition [OF g mem] have evs: "evs = filter (in_session a k) es" .
  from session_flow_member [OF sf f] evs show ?thesis
    by auto
qed







lemma in_session_agent: "in_session a k e \<Longrightarrow> agent_type e = a"
  by (simp add: in_session_def)

lemma group_events_distinct:
  assumes "group_events es = Inr g"
  shows "sessions_distinct g"
proof -
  from assms have run: "fold_err group_event [] es = Inr g"
    by (simp add: group_events_def)
  have "sessions_distinct []"
    by (simp add: sessions_distinct_def)
  from group_events_distinct_gen [OF run this] show ?thesis .
qed

lemma group_events_same_agent:
  assumes "group_events es = Inr g" and "(a, s) \<in> set g" and "(k, evs) \<in> set s"
    and "e1 \<in> set evs" and "e2 \<in> set evs"
  shows "agent_type e1 = agent_type e2"
  using group_events_partition [OF assms(1-3)] assms(4,5)
  by (auto dest: in_session_agent)

lemmas grouper_defs =
  group_events_def group_event_def session_key_def analyze_conversation_flow_def
  session_flow_def sort_by_timestamp_def calculate_flow_statistics_def turn_statistics_def
  add_token_def add_cost_def dd_get_def

text \<open>
  C10. Flows are partitioned by the pair of agent type and session key. Whenever the
  grouping returns, the list stored under an agent type and a key holds exactly the
  events with that agent type and that session key, in input order, so two events of
  different agent types are never in one session, whatever their session keys; no pair
  occurs twice. Whenever the analysis returns, each flow is built from the sorted events
  of its own pair and from nothing else.
\<close>

theorem flows_partitioned_by_agent_and_key:
  "(group_events es = Inr g \<and> (a, s) \<in> set g \<and> (k, evs) \<in> set s \<longrightarrow>
      evs = filter (in_session a k) es
      \<and> (e1 \<in> set evs \<and> e2 \<in> set evs \<longrightarrow> agent_type e1 = agent_type e2))
   \<and> (group_events es = Inr g \<longrightarrow> sessions_distinct g)
   \<and> (analyze_conversation_flow es = Inr fs \<and> f \<in> set fs \<longrightarrow>
        (\<exists>ys. sort_by_timestamp (filter (in_session (flow_agent_type f) (session_id f)) es)
                 = Inr ys
              \<and> process_conversation_turns (flow_agent_type f) ys = Inr (turns f)))"
  using group_events_partition [of es g a s k evs]
    group_events_same_agent [of es g a s k evs e1 e2]
    group_events_distinct [of es g] flow_from_session [of es fs f]
  by blast

theorem flows_partitioned_by_agent_and_key_witness:
  "group_events [prompt_event ''A'' 1, gemini_prompt_event ''B'' 2]
     = Inr [(''claude-code'', [(KStr ''claude-code'', [prompt_event ''A'' 1])]),
            (''gemini-cli'', [(KStr ''claude-code'', [gemini_prompt_event ''B'' 2])])]
   \<and> filter (in_session ''claude-code'' (KStr ''claude-code''))
        [prompt_event ''A'' 1, gemini_prompt_event ''B'' 2] = [prompt_event ''A'' 1]
   \<and> sessions_distinct
        [(''claude-code'', [(KStr ''claude-code'', [prompt_event ''A'' 1])]),
         (''gemini-cli'', [(KStr ''claude-code'', [gemini_prompt_event ''B'' 2])])]
   \<and> (\<exists>fs f ys. analyze_conversation_flow [prompt_event ''A'' 1, gemini_prompt_event ''B'' 2]
          = Inr fs
        \<and> f \<in> set fs \<and> flow_agent_type f = ''gemini-cli''
        \<and> sort_by_timestamp (filter (in_session ''gemini-cli'' (session_id f))
             [prompt_event ''A'' 1, gemini_prompt_event ''B'' 2]) = Inr ys
        \<and> process_conversation_turns ''gemini-cli'' ys = Inr (turns f))"
proof -
  let ?e1 = "prompt_event ''A'' 1"
  let ?e2 = "gemini_prompt_event ''B'' 2"
  let ?es = "[?e1, ?e2]"
  let ?s1 = "[(KStr ''claude-code'', [?e1])]"
  let ?G = "[(''claude-code'', ?s1), (''gemini-cli'', [(KStr ''claude-code'', [?e2])])]"
  have g: "group_events ?es = Inr ?G"
    by (simp add: grouper_defs example_events gemini_prompt_event_def)
  have m: "(''claude-code'', ?s1) \<in> set ?G" "(KStr ''claude-code'', [?e1]) \<in> set ?s1"
    "?e1 \<in> set [?e1]"
    by simp_all
  have "\<exists>fs. analyze_conversation_flow ?es = Inr fs
      \<and> map flow_agent_type fs = [''claude-code'', ''gemini-cli'']"
    by (simp add: grouper_defs example_events gemini_prompt_event_def segmenter_defs)
  then obtain fs where an: "analyze_conversation_flow ?es = Inr fs"
    and ags: "map flow_agent_type fs = [''claude-code'', ''gemini-cli'']"
    by (elim exE conjE)
  define f where "f = fs ! 1"
  from ags have len: "length fs = 2"
    by (metis length_map length_Cons list.size(3) One_nat_def Suc_1)
  then have mem: "f \<in> set fs"
    unfolding f_def by (intro nth_mem) simp
  have "flow_agent_type f = map flow_agent_type fs ! 1"
    unfolding f_def using len by (intro nth_map [symmetric]) simp
  with ags have fa: "flow_agent_type f = ''gemini-cli''"
    by simp
  note inst = flows_partitioned_by_agent_and_key
      [of ?es ?G "''claude-code''" ?s1 "KStr ''claude-code''" "[?e1]" ?e1 ?e1 fs f]
  from inst g m have c2: "[?e1] = filter (in_session ''claude-code'' (KStr ''claude-code'')) ?es"
    by blast
  from inst g have c3: "sessions_distinct ?G"
    by blast
  from inst an mem obtain ys where
    ys: "sort_by_timestamp (filter (in_session (flow_agent_type f) (session_id f)) ?es) = Inr ys"
      "process_conversation_turns (flow_agent_type f) ys = Inr (turns f)"
    by blast
  from an mem fa ys have c4: "\<exists>fs f ys. analyze_conversation_flow ?es = Inr fs
        \<and> f \<in> set fs \<and> flow_agent_type f = ''gemini-cli''
        \<and> sort_by_timestamp (filter (in_session ''gemini-cli'' (session_id f)) ?es) = Inr ys
        \<and> process_conversation_turns ''gemini-cli'' ys = Inr (turns f)"
    by (intro exI [of _ fs] exI [of _ f] exI [of _ ys]) simp
  from g c2 [symmetric] c3 c4 show ?thesis
    by (intro conjI)
qed






section \<open>Properties of the Timestamp Normalizer\<close>






text \<open>
  \<^verbatim>\<open>_extract_timestamp\<close> of the unified analyzer has no magnitude test: a numeric value is
  always divided by \<open>1e9\<close>.
\<close>

lemma extract_timestamp_numeric:
  "extract_timestamp lib now [(''timestamp'', JInt n)] = fromtimestamp_utc (of_int n / 1000000000)"
  by (simp add: extract_timestamp_def dict_get_def)

lemma extract_timestamp_no_disambiguation:
  "extract_timestamp example_lib now [(''timestamp'', JInt 1700000000)] = Inr (Aware 1700000)
   \<and> extract_timestamp example_lib now [(''timestamp'', JInt 1700000000000000000)]
       = Inr (Aware 1700000000000000)"
  by (simp add: extract_timestamp_def dict_get_def fromtimestamp_utc_def round_half_even_def)

section \<open>Properties of the log record parser\<close>

lemma parse_log_record_none_iff:
  "parse_log_record lib (JObj r) = Inr None \<longleftrightarrow> \<not> truthy (dict_get r ''attributes'' JNull)"
  by (auto simp: parse_log_record_def bind_err_Inr_iff)

lemma parse_log_record_some:
  assumes "parse_log_record lib (JObj r) = Inr (Some ev)"
  shows "truthy (dict_get r ''attributes'' JNull)
     \<and> (\<exists>name. log_record_name r = Inr name
          \<and> le_event_name ev =
              (if truthy name then name
               else (case map_of (le_attributes ev) (KStr ''event.name'') of
                       Some v \<Rightarrow> v
                     | None \<Rightarrow> name)))"
proof -
  from assms have t: "truthy (dict_get r ''attributes'' JNull)"
    by (auto simp: parse_log_record_def split: if_splits)
  with assms obtain attributes name ts where
    name: "py_get (dict_get r ''body'' (JObj [])) ''stringValue'' (JStr []) = Inr name"
    and ev: "ev = \<lparr>le_timestamp = ts,
                   le_event_name =
                     (if truthy name then name
                      else (case map_of attributes (KStr ''event.name'') of
                              Some v \<Rightarrow> v
                            | None \<Rightarrow> name)),
                   le_attributes = attributes\<rparr>"
    by (auto simp: parse_log_record_def bind_err_Inr_iff)
  from t name ev show ?thesis
    by (simp add: log_record_name_def)
qed

lemma parse_log_record_nameless:
  assumes "parse_log_record lib (JObj r) = Inr (Some ev)"
    and "map_of r ''body'' = None"
    and "map_of (le_attributes ev) (KStr ''event.name'') = None"
  shows "le_event_name ev = JStr []"
proof -
  from assms(2) have "log_record_name r = Inr (JStr [])"
    by (simp add: log_record_name_def dict_get_def)
  with parse_log_record_some [OF assms(1)] assms(3) show ?thesis
    by auto
qed

lemma parse_jsonl_unwrap:
  "parse_jsonl lib [otel_line recs] =
     bind_err (fold_err (collect_record lib) [] recs) (\<lambda>events.
       Inr (filter collected_truthy events, 0))"
  by (cases "fold_err (collect_record lib) [] recs")
    (simp_all add: parse_jsonl_def collect_line_def otel_line_def collect_resource_def
      collect_scope_def dict_get_def)

text \<open>
  C6 (as the code has it). \<^verbatim>\<open>parse_log_record\<close> returns \<^verbatim>\<open>None\<close> exactly for a record whose
  \<^verbatim>\<open>attributes\<close> are absent or empty. Whenever it returns an event, the attributes are
  non-empty and the event name is \<^verbatim>\<open>body.stringValue\<close> when that is non-empty, else the
  \<^verbatim>\<open>event.name\<close> attribute when there is one, else the empty name. A record without a
  body and without an \<^verbatim>\<open>event.name\<close> attribute is therefore not discarded: it is an
  event with the empty name, and the final filter of \<^verbatim>\<open>parse_jsonl\<close> keeps it. A line in
  the OpenTelemetry envelope is unwrapped to the events of its log records.
\<close>

theorem log_record_normalization:
  "(parse_log_record lib (JObj r) = Inr None \<longleftrightarrow> \<not> truthy (dict_get r ''attributes'' JNull))
   \<and> (parse_log_record lib (JObj r) = Inr (Some ev) \<longrightarrow>
        truthy (dict_get r ''attributes'' JNull)
        \<and> (\<exists>name. log_record_name r = Inr name
             \<and> le_event_name ev =
                 (if truthy name then name
                  else (case map_of (le_attributes ev) (KStr ''event.name'') of
                          Some v \<Rightarrow> v
                        | None \<Rightarrow> name))))
   \<and> (parse_log_record lib (JObj r) = Inr (Some ev) \<and> map_of r ''body'' = None
        \<and> map_of (le_attributes ev) (KStr ''event.name'') = None \<longrightarrow>
        le_event_name ev = JStr [] \<and> collected_truthy (LogEvent ev))
   \<and> parse_jsonl lib [otel_line recs] =
        bind_err (fold_err (collect_record lib) [] recs) (\<lambda>events.
          Inr (filter collected_truthy events, 0))"
  using parse_log_record_none_iff [of lib r] parse_log_record_some [of lib r ev]
    parse_log_record_nameless [of lib r ev] parse_jsonl_unwrap [of lib recs]
  by simp

theorem log_record_normalization_witness:
  "parse_log_record example_lib (JObj nameless_record_fields)
     = Inr (Some \<lparr>le_timestamp = JNull, le_event_name = JStr [],
                   le_attributes = [(KStr ''user.id'', JStr ''u1'')]\<rparr>)
   \<and> truthy (dict_get nameless_record_fields ''attributes'' JNull)
   \<and> map_of nameless_record_fields ''body'' = None
   \<and> log_record_name nameless_record_fields = Inr (JStr [])
   \<and> collected_truthy (LogEvent \<lparr>le_timestamp = JNull, le_event_name = JStr [],
                   le_attributes = [(KStr ''user.id'', JStr ''u1'')]\<rparr>)"
proof -
  let ?ev = "\<lparr>le_timestamp = JNull, le_event_name = JStr [],
               le_attributes = [(KStr ''user.id'', JStr ''u1'')]\<rparr>"
  have run: "parse_log_record example_lib (JObj nameless_record_fields) = Inr (Some ?ev)"
    by (simp add: parse_log_record_def nameless_record_fields_def log_attr_entry_def
        dict_store_def dict_get_def)
  have nb: "map_of nameless_record_fields ''body'' = None"
    by (simp add: nameless_record_fields_def)
  have na: "map_of (le_attributes ?ev) (KStr ''event.name'') = None"
    by simp
  note inst = log_record_normalization [of example_lib nameless_record_fields ?ev "[]"]
  from inst run have c2: "truthy (dict_get nameless_record_fields ''attributes'' JNull)"
    by blast
  from inst run nb na have c5: "collected_truthy (LogEvent ?ev)"
    by blast
  have c4: "log_record_name nameless_record_fields = Inr (JStr [])"
    by (simp add: log_record_name_def nameless_record_fields_def dict_get_def)
  from run c2 nb c4 c5 show ?thesis
    by (intro conjI)
qed

text \<open>
  The claim as the specification words it (a record lacking both names produces no
  event) fails: the record with one attribute, no body and no \<^verbatim>\<open>event.name\<close> comes out
  of \<^verbatim>\<open>parse_jsonl\<close> as an event with the name \<^verbatim>\<open>''\<close>.
\<close>

theorem nameless_log_record_not_discarded:
  "parse_jsonl example_lib [otel_line [nameless_record]]
   = Inr ([LogEvent \<lparr>le_timestamp = JNull, le_event_name = JStr [],
                     le_attributes = [(KStr ''user.id'', JStr ''u1'')]\<rparr>], 0)"
  by (simp add: parse_jsonl_unwrap collect_record_def parse_log_record_def nameless_record_def nameless_record_fields_def
      log_attr_entry_def dict_store_def dict_get_def)

section \<open>Properties of ingestion\<close>









text \<open>
  A file of five lines: a record, a line that does not parse, a line that parses to a
  list (no record), a blank line, an empty record. Two events, two warnings.
\<close>

lemma load_file_example:
  "map agent_type (fst (load_file example_lib clock ''claude-code'' ''claude-telemetry.jsonl''
       [Parsed (JObj [(''event'', JStr ''session_start'')]), Malformed, Parsed (JList []),
        Blank, Parsed (JObj [])]))
     = [''claude-code'', ''claude-code'']
   \<and> snd (load_file example_lib clock ''claude-code'' ''claude-telemetry.jsonl''
       [Parsed (JObj [(''event'', JStr ''session_start'')]), Malformed, Parsed (JList []),
        Blank, Parsed (JObj [])])
     = [LineWarning 2, EventWarning]"
  by (simp add: load_file_def load_line_def parse_event_def parse_event_body_def
      extract_timestamp_def dict_get_def extract_service_name_def default_service_name_def
      extract_attributes_def direct_attributes_def resource_attributes_def)


end
